theory Spec2Isabelle
  imports Complex_Main
begin

section \<open>Numbers, errors and tables\<close>

text \<open>
  Every numeric cell of the network is a float64.  The model keeps the special values a
  pandas table really holds (a missing entry is \<open>NaN\<close>, an unlimited capacity is
  \<open>PInf\<close>) and idealises the finite ones as reals: rounding and the sign of zero are
  not modelled.
\<close>

datatype flt = Fin real | PInf | NInf | NaN

fun fadd :: "flt \<Rightarrow> flt \<Rightarrow> flt" where
  "fadd NaN y = NaN"
| "fadd x NaN = NaN"
| "fadd (Fin a) (Fin b) = Fin (a + b)"
| "fadd PInf NInf = NaN"
| "fadd NInf PInf = NaN"
| "fadd PInf y = PInf"
| "fadd x PInf = PInf"
| "fadd NInf y = NInf"
| "fadd x NInf = NInf"

fun fmul :: "flt \<Rightarrow> flt \<Rightarrow> flt" where
  "fmul NaN y = NaN"
| "fmul x NaN = NaN"
| "fmul (Fin a) (Fin b) = Fin (a * b)"
| "fmul (Fin a) PInf = (if a = 0 then NaN else if 0 < a then PInf else NInf)"
| "fmul (Fin a) NInf = (if a = 0 then NaN else if 0 < a then NInf else PInf)"
| "fmul PInf (Fin b) = (if b = 0 then NaN else if 0 < b then PInf else NInf)"
| "fmul NInf (Fin b) = (if b = 0 then NaN else if 0 < b then NInf else PInf)"
| "fmul PInf PInf = PInf"
| "fmul NInf NInf = PInf"
| "fmul PInf NInf = NInf"
| "fmul NInf PInf = NInf"

fun fdiv :: "flt \<Rightarrow> flt \<Rightarrow> flt" where
  "fdiv NaN y = NaN"
| "fdiv x NaN = NaN"
| "fdiv (Fin a) (Fin b) =
     (if b = 0 then (if a = 0 then NaN else if 0 < a then PInf else NInf) else Fin (a / b))"
| "fdiv (Fin a) PInf = Fin 0"
| "fdiv (Fin a) NInf = Fin 0"
| "fdiv PInf (Fin b) = (if 0 \<le> b then PInf else NInf)"
| "fdiv NInf (Fin b) = (if 0 \<le> b then NInf else PInf)"
| "fdiv PInf y = NaN"
| "fdiv NInf y = NaN"

text \<open>Comparisons: every comparison with \<open>NaN\<close> is false.\<close>

fun fless :: "flt \<Rightarrow> flt \<Rightarrow> bool" where
  "fless NaN y = False"
| "fless x NaN = False"
| "fless (Fin a) (Fin b) = (a < b)"
| "fless x NInf = False"
| "fless PInf y = False"
| "fless NInf y = True"
| "fless x PInf = True"

definition fle :: "flt \<Rightarrow> flt \<Rightarrow> bool" where
  "fle x y = (x \<noteq> NaN \<and> y \<noteq> NaN \<and> (x = y \<or> fless x y))"

fun isfinite :: "flt \<Rightarrow> bool" where
  "isfinite (Fin a) = True"
| "isfinite x = False"

text \<open>
  \<open>Series.sum()\<close> and \<open>DataFrame.sum(axis=1)\<close> skip missing values and give 0 for
  an empty selection; \<open>Series.mean()\<close> skips them too and is \<open>NaN\<close> when nothing is
  left.  The dot product \<open>a @ b\<close> skips nothing.
\<close>

definition notna :: "flt \<Rightarrow> bool" where
  "notna x = (x \<noteq> NaN)"

definition fsum :: "flt list \<Rightarrow> flt" where
  "fsum xs = foldr fadd xs (Fin 0)"

definition sum_skipna :: "flt list \<Rightarrow> flt" where
  "sum_skipna xs = fsum (filter notna xs)"

definition mean_skipna :: "flt list \<Rightarrow> flt" where
  "mean_skipna xs =
     (let ys = filter notna xs in
      if ys = [] then NaN else fdiv (fsum ys) (Fin (real (length ys))))"

definition dot :: "flt list \<Rightarrow> flt list \<Rightarrow> flt" where
  "dot xs ys = fsum (map2 fmul xs ys)"

text \<open>The exceptions the script can raise, as values.\<close>

datatype error =
    KeyError string
  | ValueError string
  | IndexError
  | AssertionError string
  | ModuleNotFoundError string
  | OverflowError
  | ZeroDivisionError
  | RegexError string

text \<open>
  A table with a dynamic set of numeric columns (the carriers table, the snapshot
  weightings, every time-varying table): the row labels, and each column with one value
  per row.
\<close>

record 'i frame =
  index :: "'i list"
  columns :: "(string \<times> flt list) list"

definition column_names :: "'i frame \<Rightarrow> string list" where
  "column_names df = map fst (columns df)"

definition empty_frame :: "'i frame \<Rightarrow> bool" where
  "empty_frame df = (index df = [] \<or> columns df = [])"

definition cell :: "'i frame \<Rightarrow> 'i \<Rightarrow> string \<Rightarrow> flt option" where
  "cell df r c =
     (case map_of (columns df) c of
        None \<Rightarrow> None
      | Some vs \<Rightarrow> map_of (zip (index df) vs) r)"

text \<open>
  \<open>df.loc[sel, c] = v\<close> for a scalar \<open>v\<close>: the rows in \<open>sel\<close> of column \<open>c\<close>
  become \<open>v\<close>.  A column that does not exist yet is created, missing everywhere else;
  pandas refuses to create it on a table without rows.
\<close>

definition loc_set :: "'i frame \<Rightarrow> 'i list \<Rightarrow> string \<Rightarrow> flt \<Rightarrow> error + 'i frame" where
  "loc_set df sel c v =
     (if c \<in> set (column_names df)
      then Inr (df\<lparr>columns :=
             map (\<lambda>(k, vs). if k = c
                    then (k, map2 (\<lambda>r x. if r \<in> set sel then v else x) (index df) vs)
                    else (k, vs)) (columns df)\<rparr>)
      else if index df = []
      then Inl (ValueError ''cannot set a frame with no defined index and a scalar'')
      else Inr (df\<lparr>columns :=
             columns df @ [(c, map (\<lambda>r. if r \<in> set sel then v else NaN) (index df))]\<rparr>))"

text \<open>Every column of a table has one value per row.\<close>

definition wf_frame :: "'i frame \<Rightarrow> bool" where
  "wf_frame df = list_all (\<lambda>(k, vs). length vs = length (index df)) (columns df)"

section \<open>The network\<close>

text \<open>
  The static tables the script reads or writes, one row per entity, keyed by the entity's
  name in table order; the field names are the column names (prefixed where two tables
  share one).
\<close>

record bus =
  country :: string
  v_nom :: flt

record line_type_row =
  i_nom :: flt

record line =
  line_type :: string
  line_bus0 :: string
  line_bus1 :: string
  s_nom :: flt
  s_nom_min :: flt
  s_nom_max :: flt
  s_nom_extendable :: bool
  num_parallel :: flt
  line_length :: flt
  line_capital_cost :: flt
  s_max_pu :: flt

record link =
  link_carrier :: string
  link_bus0 :: string
  link_bus1 :: string
  p_nom :: flt
  p_nom_min :: flt
  p_nom_max :: flt
  p_nom_extendable :: bool
  link_length :: flt
  link_capital_cost :: flt
  link_marginal_cost :: flt

record generator =
  gen_carrier :: string
  gen_efficiency :: flt
  gen_marginal_cost :: flt
  gen_capital_cost :: flt
  gen_p_nom_max :: flt

record storage_unit =
  su_carrier :: string
  efficiency_dispatch :: flt
  su_marginal_cost :: flt
  su_capital_cost :: flt
  su_p_nom_max :: flt

record store =
  store_carrier :: string
  store_marginal_cost :: flt
  store_capital_cost :: flt

record global_constraint =
  gc_type :: string
  carrier_attribute :: string
  sense :: string
  gc_constant :: flt

type_synonym timestamp = int

type_synonym pnl = "(string \<times> timestamp frame) list"

record network =
  buses :: "(string \<times> bus) list"
  carriers :: "string frame"
  line_types :: "(string \<times> line_type_row) list"
  lines :: "(string \<times> line) list"
  links :: "(string \<times> link) list"
  generators :: "(string \<times> generator) list"
  storage_units :: "(string \<times> storage_unit) list"
  stores :: "(string \<times> store) list"
  loads :: "string list"
  global_constraints :: "(string \<times> global_constraint) list"
  snapshot_weightings :: "timestamp frame"
  buses_t :: pnl
  lines_t :: pnl
  links_t :: pnl
  generators_t :: pnl
  storage_units_t :: pnl
  stores_t :: pnl
  loads_t :: pnl

definition snapshots :: "network \<Rightarrow> timestamp list" where
  "snapshots n = index (snapshot_weightings n)"

text \<open>\<open>pypsa.Network()\<close>: the network with nothing in it.\<close>

definition Network :: network where
  "Network =
     \<lparr>buses = [], carriers = \<lparr>index = [], columns = []\<rparr>, line_types = [], lines = [],
      links = [], generators = [], storage_units = [], stores = [], loads = [],
      global_constraints = [], snapshot_weightings = \<lparr>index = [], columns = []\<rparr>,
      buses_t = [], lines_t = [], links_t = [], generators_t = [], storage_units_t = [],
      stores_t = [], loads_t = []\<rparr>"

text \<open>
  \<open>n.add("GlobalConstraint", name, ...)\<close>: a new row at the end of the table.  PyPSA
  asserts that the name is not taken.  Attributes the call does not give keep the
  component's defaults (the type is \<open>primary_energy\<close>).
\<close>

definition add_GlobalConstraint ::
  "network \<Rightarrow> string \<Rightarrow> global_constraint \<Rightarrow> error + network" where
  "add_GlobalConstraint n name gc =
     (if name \<in> set (map fst (global_constraints n))
      then Inl (AssertionError name)
      else Inr (n\<lparr>global_constraints := global_constraints n @ [(name, gc)]\<rparr>))"

section \<open>Emission and gas limits\<close>

definition add_co2limit :: "network \<Rightarrow> flt \<Rightarrow> flt \<Rightarrow> error + network" where
  "add_co2limit n co2limit Nyears =
     add_GlobalConstraint n ''CO2Limit''
       \<lparr>gc_type = ''primary_energy'', carrier_attribute = ''co2_emissions'',
        sense = ''<='', gc_constant = fmul co2limit Nyears\<rparr>"

definition gas_carriers :: "string list" where
  "gas_carriers = [''OCGT'', ''CCGT'', ''CHP'']"

definition add_gaslimit :: "network \<Rightarrow> flt \<Rightarrow> flt \<Rightarrow> error + network" where
  "add_gaslimit n gaslimit Nyears =
     (let sel = filter (\<lambda>c. c \<in> set gas_carriers) (index (carriers n))
      in case loc_set (carriers n) sel ''gas_usage'' (Fin 1) of
           Inl e \<Rightarrow> Inl e
         | Inr cs \<Rightarrow>
             add_GlobalConstraint (n\<lparr>carriers := cs\<rparr>) ''GasLimit''
               \<lparr>gc_type = ''primary_energy'', carrier_attribute = ''gas_usage'',
                sense = ''<='', gc_constant = fmul gaslimit Nyears\<rparr>)"

section \<open>Transmission expansion limit\<close>

text \<open>
  A limit factor reaches \<open>set_transmission_limit\<close> as the tail of the \<open>ll\<close> wildcard
  (a string) or as a number.  \<open>float(x)\<close> of a number is the number; of a string it is
  whatever Python's parser makes of it (the parameter \<open>parse\<close>), or a ValueError.
\<close>

datatype pyval = Str string | Num flt

fun py_float :: "(string \<Rightarrow> flt option) \<Rightarrow> pyval \<Rightarrow> error + flt" where
  "py_float parse (Num x) = Inr x"
| "py_float parse (Str s) = (case parse s of None \<Rightarrow> Inl (ValueError s) | Some x \<Rightarrow> Inr x)"

text \<open>
  Modelled from the spec: \<open>update_transmission_costs\<close> of \<open>add_electricity\<close>, which is
  not among the sources.  It refreshes the capital cost of the lines and links from the
  cost table and touches nothing else; what the table gives for a line or a link is a
  parameter.
\<close>

record costs =
  line_cost :: "line \<Rightarrow> flt"
  link_cost :: "link \<Rightarrow> flt"

definition update_transmission_costs :: "network \<Rightarrow> costs \<Rightarrow> network" where
  "update_transmission_costs n cs =
     n\<lparr>lines := map (\<lambda>(nm, l). (nm, l\<lparr>line_capital_cost := line_cost cs l\<rparr>)) (lines n),
       links := map (\<lambda>(nm, k). (nm, k\<lparr>link_capital_cost := link_cost cs k\<rparr>)) (links n)\<rparr>"

text \<open>
  \<open>s.map(table.col)\<close> looks each value of \<open>s\<close> up in the table; a key the table does
  not have gives a missing value.
\<close>

definition map_lookup :: "(string \<times> 'r) list \<Rightarrow> ('r \<Rightarrow> flt) \<Rightarrow> string \<Rightarrow> flt" where
  "map_lookup table col key = (case map_of table key of None \<Rightarrow> NaN | Some r \<Rightarrow> col r)"

definition line_s_nom :: "network \<Rightarrow> line \<Rightarrow> flt" where
  "line_s_nom n l =
     (if line_type l = []
      then s_nom l
      else fmul (fmul (fmul (Fin (sqrt 3)) (map_lookup (line_types n) i_nom (line_type l)))
                   (num_parallel l))
             (map_lookup (buses n) v_nom (line_bus0 l)))"

definition lines_s_nom :: "network \<Rightarrow> flt list" where
  "lines_s_nom n = map (\<lambda>(nm, l). line_s_nom n l) (lines n)"

definition links_dc :: "network \<Rightarrow> link list" where
  "links_dc n = filter (\<lambda>k. link_carrier k = ''DC'') (map snd (links n))"

definition transmission_ref :: "network \<Rightarrow> string \<Rightarrow> flt" where
  "transmission_ref n ll_type =
     (let line_col = (if ll_type = ''c'' then line_capital_cost else line_length);
          link_col = (if ll_type = ''c'' then link_capital_cost else link_length)
      in fadd (dot (lines_s_nom n) (map (\<lambda>(nm, l). line_col l) (lines n)))
              (dot (map p_nom (links_dc n)) (map link_col (links_dc n))))"

definition set_transmission_limit ::
  "(string \<Rightarrow> flt option) \<Rightarrow> network \<Rightarrow> string \<Rightarrow> pyval \<Rightarrow> costs \<Rightarrow> flt \<Rightarrow> error + network"
where
  "set_transmission_limit parse n ll_type factor cs Nyears =
     (let lsn = lines_s_nom n;
          ref = transmission_ref n ll_type;
          n1 = update_transmission_costs n cs
      in case (if factor = Str ''opt'' then Inr True
               else (case py_float parse factor of
                       Inl e \<Rightarrow> Inl e
                     | Inr x \<Rightarrow> Inr (fless (Fin 1) x))) of
           Inl e \<Rightarrow> Inl e
         | Inr grant \<Rightarrow>
             (let n2 = (if grant
                        then n1\<lparr>lines :=
                                 map2 (\<lambda>(nm, l) v.
                                         (nm, l\<lparr>s_nom_min := v, s_nom_extendable := True\<rparr>))
                                   (lines n1) lsn,
                               links :=
                                 map (\<lambda>(nm, k).
                                        if link_carrier k = ''DC''
                                        then (nm, k\<lparr>p_nom_min := p_nom k,
                                                     p_nom_extendable := True\<rparr>)
                                        else (nm, k)) (links n1)\<rparr>
                        else n1)
              in if factor \<noteq> Str ''opt''
                 then (case py_float parse factor of
                         Inl e \<Rightarrow> Inl e
                       | Inr x \<Rightarrow>
                           add_GlobalConstraint n2 (''l'' @ ll_type @ ''_limit'')
                             \<lparr>gc_type = ''transmission_'' @
                                  (if ll_type = ''c'' then ''expansion_cost''
                                   else ''volume_expansion'') @ ''_limit'',
                              carrier_attribute = ''AC, DC'', sense = ''<='',
                              gc_constant = fmul x ref\<rparr>)
                 else Inr n2))"

section \<open>Autarky\<close>

text \<open>
  \<open>a != b\<close> on two columns of looked-up countries: a bus the bus table does not have
  has no country, and a missing value differs from everything, itself included.
\<close>

definition bus_country :: "network \<Rightarrow> string \<Rightarrow> string option" where
  "bus_country n b = map_option country (map_of (buses n) b)"

fun ne_na :: "string option \<Rightarrow> string option \<Rightarrow> bool" where
  "ne_na (Some a) (Some b) = (a \<noteq> b)"
| "ne_na x y = True"

text \<open>
  \<open>n.mremove(class, names)\<close> drops the named rows of the static table and, in every
  time-varying table of the class, the columns of those names.
\<close>

definition drop_columns :: "'i frame \<Rightarrow> string list \<Rightarrow> 'i frame" where
  "drop_columns df names = df\<lparr>columns := filter (\<lambda>(c, vs). c \<notin> set names) (columns df)\<rparr>"

definition drop_rows :: "(string \<times> 'r) list \<Rightarrow> string list \<Rightarrow> (string \<times> 'r) list" where
  "drop_rows table names = filter (\<lambda>(nm, r). nm \<notin> set names) table"

definition drop_pnl :: "pnl \<Rightarrow> string list \<Rightarrow> pnl" where
  "drop_pnl tables names = map (\<lambda>(attr, df). (attr, drop_columns df names)) tables"

definition mremove_Line :: "network \<Rightarrow> string list \<Rightarrow> network" where
  "mremove_Line n names =
     n\<lparr>lines := drop_rows (lines n) names, lines_t := drop_pnl (lines_t n) names\<rparr>"

definition mremove_Link :: "network \<Rightarrow> string list \<Rightarrow> network" where
  "mremove_Link n names =
     n\<lparr>links := drop_rows (links n) names, links_t := drop_pnl (links_t n) names\<rparr>"

definition enforce_autarky :: "network \<Rightarrow> bool \<Rightarrow> network" where
  "enforce_autarky n only_crossborder =
     (let lines_rm =
            (if only_crossborder
             then map fst (filter (\<lambda>(nm, l). ne_na (bus_country n (line_bus0 l))
                                                    (bus_country n (line_bus1 l))) (lines n))
             else map fst (lines n));
          links_rm =
            (if only_crossborder
             then map fst (filter (\<lambda>(nm, k). ne_na (bus_country n (link_bus0 k))
                                                    (bus_country n (link_bus1 k))) (links n))
             else map fst (filter (\<lambda>(nm, k). link_carrier k = ''DC'') (links n)))
      in mremove_Link (mremove_Line n lines_rm) links_rm)"

section \<open>Capacity ceilings\<close>

text \<open>
  \<open>s.clip(upper=u)\<close>: values above \<open>u\<close> become \<open>u\<close>; a missing value stays missing and
  a missing threshold clips nothing.  The script clips the column in place, which writes
  into the table.  An extension budget counts when it is finite and positive; the DC links
  are selected by name, and names are unique.
\<close>

definition clip_upper :: "flt \<Rightarrow> flt \<Rightarrow> flt" where
  "clip_upper u x = (if fless u x then u else x)"

definition set_line_nom_max :: "network \<Rightarrow> flt \<Rightarrow> flt \<Rightarrow> flt \<Rightarrow> flt \<Rightarrow> network" where
  "set_line_nom_max n s_nom_max_set p_nom_max_set s_nom_max_ext p_nom_max_ext =
     (let n1 = (if isfinite s_nom_max_ext \<and> fless (Fin 0) s_nom_max_ext
                then n\<lparr>lines :=
                        map (\<lambda>(nm, l). (nm, l\<lparr>s_nom_max := fadd (s_nom l) s_nom_max_ext\<rparr>))
                          (lines n)\<rparr>
                else n);
          n2 = (if isfinite p_nom_max_ext \<and> fless (Fin 0) p_nom_max_ext
                then n1\<lparr>links :=
                         map (\<lambda>(nm, k).
                                if link_carrier k = ''DC''
                                then (nm, k\<lparr>p_nom_max := fadd (p_nom k) p_nom_max_ext\<rparr>)
                                else (nm, k)) (links n1)\<rparr>
                else n1)
      in n2\<lparr>lines :=
              map (\<lambda>(nm, l). (nm, l\<lparr>s_nom_max := clip_upper s_nom_max_set (s_nom_max l)\<rparr>))
                (lines n2),
            links :=
              map (\<lambda>(nm, k). (nm, k\<lparr>p_nom_max := clip_upper p_nom_max_set (p_nom_max k)\<rparr>))
                (links n2)\<rparr>)"

section \<open>Emission prices\<close>

text \<open>Python's \<open>s.startswith(p)\<close> and \<open>sub in s\<close> on strings.\<close>

definition startswith :: "string \<Rightarrow> string \<Rightarrow> bool" where
  "startswith s p = (take (length p) s = p)"

fun str_contains :: "string \<Rightarrow> string \<Rightarrow> bool" where
  "str_contains sub [] = (sub = [])"
| "str_contains sub (c # cs) = (startswith (c # cs) sub \<or> str_contains sub cs)"

text \<open>
  A price map is a Python dict, an object: a call receives a reference to it, and the
  default of \<open>add_emission_prices\<close> is one dict, made when the function is defined and
  handed to every call that leaves the argument out.  The heap maps references to
  dicts; the default lives at \<open>default_emission_prices\<close>.
\<close>

type_synonym ref = nat

type_synonym price_dict = "(string \<times> flt) list"

type_synonym heap = "ref \<Rightarrow> price_dict"

definition default_emission_prices :: ref where
  "default_emission_prices = 0"

definition initial_heap :: heap where
  "initial_heap = (\<lambda>r. [])(default_emission_prices := [(''co2'', Fin 0)])"

text \<open>\<open>d.pop(key)\<close>: the dict without the key, or a KeyError when it has none.\<close>

definition dict_pop :: "price_dict \<Rightarrow> string \<Rightarrow> error + price_dict" where
  "dict_pop d key =
     (if key \<in> set (map fst d) then Inr (filter (\<lambda>(k, v). k \<noteq> key) d)
      else Inl (KeyError key))"

text \<open>
  The price per carrier, \<open>ep\<close>: the prices, renamed to \<open>kind_emissions\<close>, times the
  carriers' columns whose name contains \<open>_emissions\<close>, summed over the columns of each
  row.  A column without a price is missing in the product, and the sum skips what is
  missing.
\<close>

definition emission_products :: "price_dict \<Rightarrow> string frame \<Rightarrow> flt list list" where
  "emission_products emission_prices cs =
     map (\<lambda>(c, vs). case map_of (map (\<lambda>(k, v). (k @ ''_emissions'', v)) emission_prices) c of
                        None \<Rightarrow> map (\<lambda>v. NaN) vs
                      | Some p \<Rightarrow> map (fmul p) vs)
       (filter (\<lambda>(c, vs). str_contains ''_emissions'' c) (columns cs))"

definition ep :: "price_dict \<Rightarrow> string frame \<Rightarrow> (string \<times> flt) list" where
  "ep emission_prices cs =
     map (\<lambda>(i, r). (r, sum_skipna (map (\<lambda>col. col ! i) (emission_products emission_prices cs))))
       (enumerate 0 (index cs))"

definition gen_ep :: "price_dict \<Rightarrow> network \<Rightarrow> generator \<Rightarrow> flt" where
  "gen_ep emission_prices n g =
     fdiv (case map_of (ep emission_prices (carriers n)) (gen_carrier g) of
             None \<Rightarrow> NaN | Some x \<Rightarrow> x)
          (gen_efficiency g)"

definition su_ep :: "price_dict \<Rightarrow> network \<Rightarrow> storage_unit \<Rightarrow> flt" where
  "su_ep emission_prices n s =
     fdiv (case map_of (ep emission_prices (carriers n)) (su_carrier s) of
             None \<Rightarrow> NaN | Some x \<Rightarrow> x)
          (efficiency_dispatch s)"

text \<open>
  \<open>n.generators_t["marginal_cost"]\<close>: PyPSA keeps a table for every time-varying
  attribute, without columns until a series is set.
\<close>

definition pnl_get :: "network \<Rightarrow> pnl \<Rightarrow> string \<Rightarrow> timestamp frame" where
  "pnl_get n tables attr =
     (case map_of tables attr of
        None \<Rightarrow> \<lparr>index = snapshots n, columns = []\<rparr>
      | Some df \<Rightarrow> df)"

definition pnl_set :: "pnl \<Rightarrow> string \<Rightarrow> timestamp frame \<Rightarrow> pnl" where
  "pnl_set tables attr df =
     (if attr \<in> set (map fst tables)
      then map (\<lambda>(k, old). if k = attr then (k, df) else (k, old)) tables
      else tables @ [(attr, df)])"

definition add_emission_prices ::
  "heap \<Rightarrow> network \<Rightarrow> ref option \<Rightarrow> bool \<Rightarrow> heap \<times> (error + network)" where
  "add_emission_prices h n arg exclude_co2 =
     (let r = (case arg of None \<Rightarrow> default_emission_prices | Some a \<Rightarrow> a) in
      case (if exclude_co2 then dict_pop (h r) ''co2'' else Inr (h r)) of
        Inl e \<Rightarrow> (h, Inl e)
      | Inr emission_prices \<Rightarrow>
          (h(r := emission_prices),
           (let n1 = n\<lparr>generators :=
                       map (\<lambda>(nm, g).
                              (nm, g\<lparr>gen_marginal_cost :=
                                        fadd (gen_marginal_cost g) (gen_ep emission_prices n g)\<rparr>))
                         (generators n)\<rparr>;
                mc_t = pnl_get n1 (generators_t n1) ''marginal_cost''
            in case filter (\<lambda>c. c \<notin> set (map fst (generators n1))) (column_names mc_t) of
                 c # cs \<Rightarrow> Inl (KeyError c)
               | [] \<Rightarrow>
                   (let n2 = n1\<lparr>generators_t :=
                               pnl_set (generators_t n1) ''marginal_cost''
                                 (mc_t\<lparr>columns :=
                                    map (\<lambda>(c, vs).
                                           (c, map (\<lambda>v. fadd v
                                                 (case map_of (generators n) c of
                                                    None \<Rightarrow> NaN
                                                  | Some g \<Rightarrow> gen_ep emission_prices n g)) vs))
                                      (columns mc_t)\<rparr>)\<rparr>
                    in Inr (n2\<lparr>storage_units :=
                                 map (\<lambda>(nm, s).
                                        (nm, s\<lparr>su_marginal_cost :=
                                                  fadd (su_marginal_cost s)
                                                    (su_ep emission_prices n s)\<rparr>))
                                   (storage_units n2)\<rparr>)))))"

text \<open>\<open>n.carriers.co2_emissions\<close> at a carrier; missing when the table has no such entry.\<close>

definition co2_intensity :: "network \<Rightarrow> string \<Rightarrow> flt" where
  "co2_intensity n k = (case cell (carriers n) k ''co2_emissions'' of None \<Rightarrow> NaN | Some c \<Rightarrow> c)"

section \<open>Snapshots\<close>

text \<open>
  A timestamp counts nanoseconds, as pandas does.  What the script takes from libraries
  outside the repository is a parameter of the model: pandas' reading of a frequency
  string as a fixed length of time (\<open>to_offset\<close>; calendar frequencies such as months
  are not modelled), Python's \<open>int\<close> of a string, PyPSA's default value of a
  time-varying attribute of a component, and the \<open>tsam\<close> aggregation, absent when the
  package is not installed.  The aggregation takes the series, the hours per period, the
  number of segments and the solver's name; its result is the table of typical periods,
  one row per segment, indexed by the segments' durations.
\<close>

definition hour :: int where
  "hour = 3600000000000"

definition day :: int where
  "day = 24 * hour"

record externals =
  to_offset :: "string \<Rightarrow> int option"
  int_of_str :: "string \<Rightarrow> int option"
  attr_default :: "string \<Rightarrow> string \<Rightarrow> flt"
  tsam :: "(timestamp frame \<Rightarrow> nat \<Rightarrow> int \<Rightarrow> string \<Rightarrow> error + nat frame) option"

text \<open>
  \<open>df.reindex(new, fill_value=v)\<close>: the rows of the new labels; a label the table does
  not have gets \<open>v\<close>, and a row that is kept keeps its values, missing ones too.
\<close>

definition reindex :: "'i frame \<Rightarrow> 'i list \<Rightarrow> flt \<Rightarrow> 'i frame" where
  "reindex df new fill_value =
     \<lparr>index = new,
      columns = map (\<lambda>(c, vs). (c, map (\<lambda>t. case map_of (zip (index df) vs) t of
                                               None \<Rightarrow> fill_value | Some v \<Rightarrow> v) new))
                  (columns df)\<rparr>"

text \<open>
  \<open>n.set_snapshots(new)\<close>: the weightings are reindexed, a new snapshot weighing 1.0,
  and every time-varying table is reindexed, a new snapshot getting the attribute's
  default.
\<close>

definition reindex_pnl :: "externals \<Rightarrow> string \<Rightarrow> timestamp list \<Rightarrow> pnl \<Rightarrow> pnl" where
  "reindex_pnl E cname new tables =
     map (\<lambda>(attr, df). (attr, reindex df new (attr_default E cname attr))) tables"

definition set_snapshots :: "externals \<Rightarrow> network \<Rightarrow> timestamp list \<Rightarrow> network" where
  "set_snapshots E n new =
     n\<lparr>snapshot_weightings := reindex (snapshot_weightings n) new (Fin 1),
       buses_t := reindex_pnl E ''buses'' new (buses_t n),
       lines_t := reindex_pnl E ''lines'' new (lines_t n),
       links_t := reindex_pnl E ''links'' new (links_t n),
       generators_t := reindex_pnl E ''generators'' new (generators_t n),
       storage_units_t := reindex_pnl E ''storage_units'' new (storage_units_t n),
       stores_t := reindex_pnl E ''stores'' new (stores_t n),
       loads_t := reindex_pnl E ''loads'' new (loads_t n)\<rparr>"

section \<open>Uniform averaging\<close>

text \<open>
  \<open>df.resample(freq)\<close> for a fixed-length frequency: the bins are \<open>freq\<close> long,
  closed on the left and labelled by their left edge; the first starts at the last
  multiple of \<open>freq\<close> after the midnight of the first timestamp that is not after that
  timestamp, and the last holds the last timestamp.  A bin without rows is kept.  pandas
  refuses a number; it divides by the length to place the first bin, a ZeroDivisionError
  for a length of zero, and finds no bins, a ValueError, for a negative one.
\<close>

definition list_min :: "int list \<Rightarrow> int" where
  "list_min xs = fold min (tl xs) (hd xs)"

definition list_max :: "int list \<Rightarrow> int" where
  "list_max xs = fold max (tl xs) (hd xs)"

definition bin_labels :: "int \<Rightarrow> timestamp list \<Rightarrow> timestamp list" where
  "bin_labels freq idx =
     (if idx = [] then []
      else (let first = list_min idx;
                last = list_max idx;
                origin = first - first mod day;
                start = first - (first - origin) mod freq
            in map (\<lambda>k. start + int k * freq) [0..<nat ((last - start) div freq) + 1]))"

definition bin_values :: "int \<Rightarrow> timestamp list \<Rightarrow> flt list \<Rightarrow> timestamp \<Rightarrow> flt list" where
  "bin_values freq idx vs b = map snd (filter (\<lambda>(t, v). b \<le> t \<and> t < b + freq) (zip idx vs))"

definition resample :: "(flt list \<Rightarrow> flt) \<Rightarrow> int \<Rightarrow> timestamp frame \<Rightarrow> timestamp frame" where
  "resample agg freq df =
     \<lparr>index = bin_labels freq (index df),
      columns = map (\<lambda>(c, vs). (c, map (\<lambda>b. agg (bin_values freq (index df) vs b))
                                      (bin_labels freq (index df))))
                  (columns df)\<rparr>"

text \<open>
  The loop over the components: \<open>iterate_components\<close> skips a component without
  entities; of the others, every time-varying table that is not empty is resampled into
  the copy, whose own tables have no columns.
\<close>

definition resample_pnl :: "int \<Rightarrow> bool \<Rightarrow> pnl \<Rightarrow> pnl" where
  "resample_pnl freq no_entities tables =
     (if no_entities then []
      else map (\<lambda>(k, df). (k, resample mean_skipna freq df))
             (filter (\<lambda>(k, df). \<not> empty_frame df) tables))"

definition average_every_nhours :: "externals \<Rightarrow> network \<Rightarrow> pyval \<Rightarrow> error + network" where
  "average_every_nhours E n offset =
     (case offset of
        Num x \<Rightarrow> Inl (ValueError ''Invalid frequency'')
      | Str s \<Rightarrow>
          (case to_offset E s of
             None \<Rightarrow> Inl (ValueError s)
           | Some freq \<Rightarrow>
               if freq = 0 then Inl ZeroDivisionError
               else if freq < 0 then Inl (ValueError s)
               else Inr (n\<lparr>snapshot_weightings :=
                             resample sum_skipna freq (snapshot_weightings n),
                           buses_t := resample_pnl freq (buses n = []) (buses_t n),
                           lines_t := resample_pnl freq (lines n = []) (lines_t n),
                           links_t := resample_pnl freq (links n = []) (links_t n),
                           generators_t :=
                             resample_pnl freq (generators n = []) (generators_t n),
                           storage_units_t :=
                             resample_pnl freq (storage_units n = []) (storage_units_t n),
                           stores_t := resample_pnl freq (stores n = []) (stores_t n),
                           loads_t := resample_pnl freq (loads n = []) (loads_t n)\<rparr>)))"

section \<open>Segmentation\<close>

text \<open>\<open>int(x)\<close>: a number is truncated towards zero, a string is parsed.\<close>

fun py_int :: "externals \<Rightarrow> pyval \<Rightarrow> error + int" where
  "py_int E (Str s) = (case int_of_str E s of None \<Rightarrow> Inl (ValueError s) | Some k \<Rightarrow> Inr k)"
| "py_int E (Num (Fin r)) = Inr (if 0 \<le> r then \<lfloor>r\<rfloor> else \<lceil>r\<rceil>)"
| "py_int E (Num NaN) = Inl (ValueError ''cannot convert float NaN to integer'')"
| "py_int E (Num x) = Inl OverflowError"

text \<open>\<open>s.max()\<close> skips missing values and is missing when nothing is left.\<close>

definition fmax :: "flt \<Rightarrow> flt \<Rightarrow> flt" where
  "fmax x y = (if fless x y then y else x)"

definition max_skipna :: "flt list \<Rightarrow> flt" where
  "max_skipna xs =
     (case filter notna xs of [] \<Rightarrow> NaN | y # ys \<Rightarrow> fold fmax ys y)"

definition col_norm :: "timestamp frame \<Rightarrow> (string \<times> flt) list" where
  "col_norm df = map (\<lambda>(c, vs). (c, max_skipna vs)) (columns df)"

definition normalized :: "timestamp frame \<Rightarrow> timestamp frame" where
  "normalized df =
     df\<lparr>columns := map (\<lambda>(c, vs). (c, map (\<lambda>v. fdiv v (max_skipna vs)) vs)) (columns df)\<rparr>"

text \<open>
  \<open>pd.concat([a, b, c], axis=1)\<close>: the columns side by side.  Tables with the same index
  keep it; otherwise the rows are the sorted union of the labels, and a table is missing
  where it has no row.
\<close>

definition concat_columns :: "timestamp frame list \<Rightarrow> timestamp frame" where
  "concat_columns dfs =
     (let idx = (case dfs of
                   [] \<Rightarrow> []
                 | d # ds \<Rightarrow> if list_all (\<lambda>x. index x = index d) ds then index d
                             else sort (remdups (concat (map index dfs))))
      in \<lparr>index = idx, columns = concat (map (\<lambda>d. columns (reindex d idx NaN)) dfs)\<rparr>)"

text \<open>\<open>np.cumsum\<close>, and the offsets \<open>np.insert(np.cumsum(weightings[:-1]), 0, 0)\<close>.\<close>

fun cumsum_from :: "nat \<Rightarrow> nat list \<Rightarrow> nat list" where
  "cumsum_from acc [] = []"
| "cumsum_from acc (x # xs) = (acc + x) # cumsum_from (acc + x) xs"

definition segment_offsets :: "nat list \<Rightarrow> nat list" where
  "segment_offsets weightings = 0 # cumsum_from 0 (butlast weightings)"

text \<open>
  \<open>segmented[cols] * norm\<close>: the named columns of the typical periods, each times the
  stored maximum of its column; a KeyError for a column the result does not have.
\<close>

fun denormalized ::
  "nat frame \<Rightarrow> (string \<times> flt) list \<Rightarrow> error + (string \<times> flt list) list" where
  "denormalized segmented [] = Inr []"
| "denormalized segmented ((c, m) # norms) =
     (case map_of (columns segmented) c of
        None \<Rightarrow> Inl (KeyError c)
      | Some vs \<Rightarrow>
          (case denormalized segmented norms of
             Inl e \<Rightarrow> Inl e
           | Inr rest \<Rightarrow> Inr ((c, map (\<lambda>v. fmul v m) vs) # rest)))"

definition apply_time_segmentation ::
  "externals \<Rightarrow> network \<Rightarrow> pyval \<Rightarrow> string \<Rightarrow> error + network" where
  "apply_time_segmentation E n segments solver_name =
     (case tsam E of
        None \<Rightarrow> Inl (ModuleNotFoundError ''tsam'')
      | Some aggregate \<Rightarrow>
          (let p_max_pu = pnl_get n (generators_t n) ''p_max_pu'';
               p_set = pnl_get n (loads_t n) ''p_set'';
               inflow = pnl_get n (storage_units_t n) ''inflow'';
               raw = concat_columns [normalized p_max_pu, normalized p_set, normalized inflow]
           in case py_int E segments of
                Inl e \<Rightarrow> Inl e
              | Inr k \<Rightarrow>
                  (case aggregate raw (length (index raw)) k solver_name of
                     Inl e \<Rightarrow> Inl e
                   | Inr segmented \<Rightarrow>
                       (let weightings = index segmented;
                            offsets = segment_offsets weightings
                        in if snapshots n = [] then Inl IndexError
                           else
                             (let new = map (\<lambda>off. hd (snapshots n) + int off * hour) offsets;
                                  n1 = set_snapshots E n new;
                                  w = map (\<lambda>d. Fin (real d)) weightings
                              in if length weightings \<noteq> length new
                                 then Inl (ValueError ''Length of values does not match length of index'')
                                 else
                                   (case (denormalized segmented (col_norm p_max_pu),
                                          denormalized segmented (col_norm p_set),
                                          denormalized segmented (col_norm inflow)) of
                                      (Inr a, Inr b, Inr c) \<Rightarrow>
                                        Inr (n1\<lparr>snapshot_weightings :=
                                                   \<lparr>index = new,
                                                    columns = [(''objective'', w), (''stores'', w),
                                                               (''generators'', w)]\<rparr>,
                                                 generators_t :=
                                                   pnl_set (generators_t n1) ''p_max_pu''
                                                     \<lparr>index = new, columns = a\<rparr>,
                                                 loads_t :=
                                                   pnl_set (loads_t n1) ''p_set''
                                                     \<lparr>index = new, columns = b\<rparr>,
                                                 storage_units_t :=
                                                   pnl_set (storage_units_t n1) ''inflow''
                                                     \<lparr>index = new, columns = c\<rparr>\<rparr>)
                                    | (Inl e, y, z) \<Rightarrow> Inl e
                                    | (Inr a, Inl e, z) \<Rightarrow> Inl e
                                    | (Inr a, Inr b, Inl e) \<Rightarrow> Inl e))))))"

section \<open>The orchestrator\<close>

text \<open>
  The option tokens are the \<open>opts\<close> wildcard split at dashes.  A configured value is a
  string or a number, or \<open>False\<close> when the key is absent or switched off (\<open>None\<close>
  here).  Python takes the empty string and zero for false.
\<close>

record config =
  resolution :: "pyval option"
  segmentation :: "pyval option"
  solver_name :: string

fun truthy :: "pyval \<Rightarrow> bool" where
  "truthy (Str s) = (s \<noteq> [])"
| "truthy (Num x) = (x \<noteq> Fin 0)"

text \<open>\<open>if v:\<close> for a value that may be \<open>False\<close>.\<close>

definition wanted :: "pyval option \<Rightarrow> bool" where
  "wanted v = (case v of None \<Rightarrow> False | Some x \<Rightarrow> truthy x)"

text \<open>
  Modelled from the spec: \<open>get_opt\<close> of \<open>_helpers\<close>, which is not among the sources.
  It gives the first token that matches the pattern, if any; the two patterns the
  orchestrator asks for are \<open>^\d+h$\<close> and \<open>^\d+seg$\<close>, one or more digits followed by
  the suffix.
\<close>

definition is_digit :: "char \<Rightarrow> bool" where
  "is_digit c = (c \<in> set ''0123456789'')"

definition digits_then :: "string \<Rightarrow> string \<Rightarrow> bool" where
  "digits_then suffix s = (takeWhile is_digit s \<noteq> [] \<and> dropWhile is_digit s = suffix)"

definition get_opt :: "string list \<Rightarrow> (string \<Rightarrow> bool) \<Rightarrow> string option" where
  "get_opt opts matches = find matches opts"

text \<open>\<open>a or b\<close>, for a token found or not and a configured value.\<close>

definition wildcard_or_config :: "string option \<Rightarrow> pyval option \<Rightarrow> pyval option" where
  "wildcard_or_config wildcard configured =
     (case wildcard of Some s \<Rightarrow> (if s \<noteq> [] then Some (Str s) else configured)
      | None \<Rightarrow> configured)"

definition nhours :: "config \<Rightarrow> string list \<Rightarrow> pyval option" where
  "nhours cfg opts = wildcard_or_config (get_opt opts (digits_then ''h'')) (resolution cfg)"

definition time_seg :: "config \<Rightarrow> string list \<Rightarrow> pyval option" where
  "time_seg cfg opts = wildcard_or_config (get_opt opts (digits_then ''seg'')) (segmentation cfg)"

text \<open>
  The temporal steps of the run, with the calls they make in order: a call is recorded
  when it is made, whether it returns or raises.
\<close>

datatype call =
    Average_every_nhours pyval
  | Apply_time_segmentation pyval string

definition temporal_steps ::
  "externals \<Rightarrow> config \<Rightarrow> string list \<Rightarrow> network \<Rightarrow> call list \<times> (error + network)" where
  "temporal_steps E cfg opts n =
     (let (calls, averaged) =
            (case nhours cfg opts of
               None \<Rightarrow> ([], Inr n)
             | Some h \<Rightarrow>
                 if truthy h then ([Average_every_nhours h], average_every_nhours E n h)
                 else ([], Inr n))
      in case averaged of
           Inl e \<Rightarrow> (calls, Inl e)
         | Inr n1 \<Rightarrow>
             (case time_seg cfg opts of
                None \<Rightarrow> (calls, Inr n1)
              | Some k \<Rightarrow>
                  if truthy k
                  then (calls @ [Apply_time_segmentation k (solver_name cfg)],
                        apply_time_segmentation E n1 k (solver_name cfg))
                  else (calls, Inr n1)))"

text \<open>
  The scaling tokens.  \<open>o.split("+")\<close> cuts at every plus sign; \<open>c.split("-", 2)[0]\<close> is
  the carrier name up to its first dash.
\<close>

fun split_on :: "char \<Rightarrow> string \<Rightarrow> string list" where
  "split_on sep [] = [[]]"
| "split_on sep (c # cs) =
     (if c = sep then [] # split_on sep cs
      else (case split_on sep cs of
              [] \<Rightarrow> [[c]]
            | w # ws \<Rightarrow> (c # w) # ws))"

definition suptechs :: "network \<Rightarrow> string list" where
  "suptechs n = map (\<lambda>c. hd (split_on CHR ''-'' c)) (index (carriers n))"

definition attr_lookup :: "(string \<times> string) list" where
  "attr_lookup = [(''p'', ''p_nom_max''), (''c'', ''capital_cost''), (''m'', ''marginal_cost'')]"

text \<open>
  What a token asks for: nothing when it has no plus sign or names no carrier of the
  network, otherwise a carrier, an attribute and a factor.  The attribute code is looked
  up before the factor is read.
\<close>

definition token_scaling ::
  "(string \<Rightarrow> flt option) \<Rightarrow> network \<Rightarrow> string \<Rightarrow> error + (string \<times> string \<times> flt) option" where
  "token_scaling parse n opt =
     (if CHR ''+'' \<notin> set opt then Inr None
      else (let oo = split_on CHR ''+'' opt in
            if \<not> list_ex (startswith (oo ! 0)) (suptechs n) then Inr None
            else (case oo ! 1 of
                    [] \<Rightarrow> Inl IndexError
                  | code # rest \<Rightarrow>
                      (case map_of attr_lookup [code] of
                         None \<Rightarrow> Inl (KeyError [code])
                       | Some attr \<Rightarrow>
                           (case py_float parse (Str rest) of
                              Inl e \<Rightarrow> Inl e
                            | Inr factor \<Rightarrow> Inr (Some (oo ! 0, attr, factor)))))))"

text \<open>
  The scaling itself.  Lines have a capital cost but neither a potential nor a marginal
  cost, and stores have no \<open>p_nom_max\<close>: selecting such a column is a KeyError.  Of the
  four component classes, those without entities are skipped.  The entities are selected
  with \<open>carrier.str.contains(pattern)\<close>, which searches each carrier name for a match
  of the pattern as a regular expression.  Python's regular expressions are a parameter
  of the model: \<open>search pattern\<close> is the test the compiled pattern makes on a string,
  and is absent when the pattern does not compile.  The first component class that is
  not skipped compiles the pattern, before anything is scaled.
\<close>

definition scale_lines :: "network \<Rightarrow> string \<Rightarrow> flt \<Rightarrow> error + network" where
  "scale_lines n attr factor =
     (if attr = ''capital_cost''
      then Inr (n\<lparr>lines :=
                   map (\<lambda>(nm, l). (nm, l\<lparr>line_capital_cost := fmul (line_capital_cost l) factor\<rparr>))
                     (lines n)\<rparr>)
      else Inl (KeyError attr))"

definition scale_generator :: "string \<Rightarrow> flt \<Rightarrow> generator \<Rightarrow> generator" where
  "scale_generator attr factor g =
     (if attr = ''p_nom_max'' then g\<lparr>gen_p_nom_max := fmul (gen_p_nom_max g) factor\<rparr>
      else if attr = ''capital_cost'' then g\<lparr>gen_capital_cost := fmul (gen_capital_cost g) factor\<rparr>
      else g\<lparr>gen_marginal_cost := fmul (gen_marginal_cost g) factor\<rparr>)"

definition scale_link :: "string \<Rightarrow> flt \<Rightarrow> link \<Rightarrow> link" where
  "scale_link attr factor k =
     (if attr = ''p_nom_max'' then k\<lparr>p_nom_max := fmul (p_nom_max k) factor\<rparr>
      else if attr = ''capital_cost'' then k\<lparr>link_capital_cost := fmul (link_capital_cost k) factor\<rparr>
      else k\<lparr>link_marginal_cost := fmul (link_marginal_cost k) factor\<rparr>)"

definition scale_storage_unit :: "string \<Rightarrow> flt \<Rightarrow> storage_unit \<Rightarrow> storage_unit" where
  "scale_storage_unit attr factor s =
     (if attr = ''p_nom_max'' then s\<lparr>su_p_nom_max := fmul (su_p_nom_max s) factor\<rparr>
      else if attr = ''capital_cost'' then s\<lparr>su_capital_cost := fmul (su_capital_cost s) factor\<rparr>
      else s\<lparr>su_marginal_cost := fmul (su_marginal_cost s) factor\<rparr>)"

definition scale_store :: "string \<Rightarrow> flt \<Rightarrow> store \<Rightarrow> store" where
  "scale_store attr factor s =
     (if attr = ''capital_cost'' then s\<lparr>store_capital_cost := fmul (store_capital_cost s) factor\<rparr>
      else s\<lparr>store_marginal_cost := fmul (store_marginal_cost s) factor\<rparr>)"

definition scale_components ::
  "(string \<Rightarrow> (string \<Rightarrow> bool) option) \<Rightarrow> network \<Rightarrow> string \<Rightarrow> string \<Rightarrow> flt
     \<Rightarrow> error + network" where
  "scale_components search n carrier attr factor =
     (if generators n = [] \<and> links n = [] \<and> storage_units n = [] \<and> stores n = [] then Inr n
      else (case search carrier of
              None \<Rightarrow> Inl (RegexError carrier)
            | Some found \<Rightarrow>
                if stores n \<noteq> [] \<and> attr = ''p_nom_max'' then Inl (KeyError attr)
                else Inr (n\<lparr>generators :=
                             map (\<lambda>(nm, g). (nm, if found (gen_carrier g)
                                                  then scale_generator attr factor g else g))
                               (generators n),
                           links :=
                             map (\<lambda>(nm, k). (nm, if found (link_carrier k)
                                                  then scale_link attr factor k else k))
                               (links n),
                           storage_units :=
                             map (\<lambda>(nm, s). (nm, if found (su_carrier s)
                                                  then scale_storage_unit attr factor s else s))
                               (storage_units n),
                           stores :=
                             map (\<lambda>(nm, s). (nm, if found (store_carrier s)
                                                  then scale_store attr factor s else s))
                               (stores n)\<rparr>)))"

definition scale_option ::
  "(string \<Rightarrow> flt option) \<Rightarrow> (string \<Rightarrow> (string \<Rightarrow> bool) option) \<Rightarrow> network \<Rightarrow> string
     \<Rightarrow> error + network" where
  "scale_option parse search n opt =
     (case token_scaling parse n opt of
        Inl e \<Rightarrow> Inl e
      | Inr None \<Rightarrow> Inr n
      | Inr (Some (carrier, attr, factor)) \<Rightarrow>
          if carrier = ''AC'' then scale_lines n attr factor
          else scale_components search n carrier attr factor)"

fun scale_options ::
  "(string \<Rightarrow> flt option) \<Rightarrow> (string \<Rightarrow> (string \<Rightarrow> bool) option) \<Rightarrow> network \<Rightarrow> string list
     \<Rightarrow> error + network" where
  "scale_options parse search n [] = Inr n"
| "scale_options parse search n (opt # opts) =
     (case scale_option parse search n opt of
        Inl e \<Rightarrow> Inl e
      | Inr n1 \<Rightarrow> scale_options parse search n1 opts)"

section \<open>Well-formed networks\<close>

text \<open>Every endpoint of a line or link is a bus of the network.\<close>

definition known_endpoints :: "network \<Rightarrow> bool" where
  "known_endpoints n =
     (list_all (\<lambda>(nm, l). bus_country n (line_bus0 l) \<noteq> None \<and>
                          bus_country n (line_bus1 l) \<noteq> None) (lines n) \<and>
      list_all (\<lambda>(nm, k). bus_country n (link_bus0 k) \<noteq> None \<and>
                          bus_country n (link_bus1 k) \<noteq> None) (links n))"

text \<open>
  The lines and the DC links have their maximum capacity within the absolute ceilings.
\<close>

definition within_ceilings :: "network \<Rightarrow> flt \<Rightarrow> flt \<Rightarrow> bool" where
  "within_ceilings n s_nom_max_set p_nom_max_set =
     (list_all (\<lambda>(nm, l). fle (s_nom_max l) s_nom_max_set) (lines n) \<and>
      list_all (\<lambda>(nm, k). link_carrier k = ''DC'' \<longrightarrow> fle (p_nom_max k) p_nom_max_set)
        (links n))"

text \<open>
  Consistency of the time-varying tables: a component without entities has no series.
\<close>

definition consistent_pnl :: "network \<Rightarrow> bool" where
  "consistent_pnl n =
     ((buses n = [] \<longrightarrow> list_all (\<lambda>(k, df). empty_frame df) (buses_t n)) \<and>
      (lines n = [] \<longrightarrow> list_all (\<lambda>(k, df). empty_frame df) (lines_t n)) \<and>
      (links n = [] \<longrightarrow> list_all (\<lambda>(k, df). empty_frame df) (links_t n)) \<and>
      (generators n = [] \<longrightarrow> list_all (\<lambda>(k, df). empty_frame df) (generators_t n)) \<and>
      (storage_units n = [] \<longrightarrow> list_all (\<lambda>(k, df). empty_frame df) (storage_units_t n)) \<and>
      (stores n = [] \<longrightarrow> list_all (\<lambda>(k, df). empty_frame df) (stores_t n)) \<and>
      (loads n = [] \<longrightarrow> list_all (\<lambda>(k, df). empty_frame df) (loads_t n)))"

text \<open>The real value of a finite float.\<close>

fun fval :: "flt \<Rightarrow> real" where
  "fval (Fin r) = r"
| "fval x = 0"

section \<open>Example networks\<close>

text \<open>Two carriers with a CO2 intensity and no gas-usage attribute.\<close>

definition gas_net :: network where
  "gas_net = Network\<lparr>carriers :=
     \<lparr>index = [''OCGT'', ''solar''], columns = [(''co2_emissions'', [Fin 0.2, Fin 0])]\<rparr>\<rparr>"

text \<open>
  Three buses in two countries, a domestic line and a cross-border line, a cross-border DC
  link and a domestic pipeline link, each with one time series.
\<close>

definition grid_net :: network where
  "grid_net = Network
     \<lparr>buses := [(''DE1'', \<lparr>country = ''DE'', v_nom = Fin 380\<rparr>),
                (''DE2'', \<lparr>country = ''DE'', v_nom = Fin 380\<rparr>),
                (''FR1'', \<lparr>country = ''FR'', v_nom = Fin 380\<rparr>)],
      lines := [(''L1'', \<lparr>line_type = [], line_bus0 = ''DE1'', line_bus1 = ''DE2'',
                         s_nom = Fin 100, s_nom_min = Fin 0, s_nom_max = PInf,
                         s_nom_extendable = False, num_parallel = Fin 1,
                         line_length = Fin 10, line_capital_cost = Fin 5, s_max_pu = Fin 1\<rparr>),
                (''L2'', \<lparr>line_type = [], line_bus0 = ''DE1'', line_bus1 = ''FR1'',
                         s_nom = Fin 200, s_nom_min = Fin 0, s_nom_max = Fin 500,
                         s_nom_extendable = False, num_parallel = Fin 1,
                         line_length = Fin 20, line_capital_cost = Fin 7, s_max_pu = Fin 1\<rparr>)],
      links := [(''K1'', \<lparr>link_carrier = ''DC'', link_bus0 = ''DE2'', link_bus1 = ''FR1'',
                         p_nom = Fin 50, p_nom_min = Fin 0, p_nom_max = PInf,
                         p_nom_extendable = False, link_length = Fin 30,
                         link_capital_cost = Fin 3, link_marginal_cost = Fin 0\<rparr>),
                (''K2'', \<lparr>link_carrier = ''H2 pipeline'', link_bus0 = ''DE1'',
                         link_bus1 = ''DE2'', p_nom = Fin 10, p_nom_min = Fin 0,
                         p_nom_max = Fin 40, p_nom_extendable = False, link_length = Fin 15,
                         link_capital_cost = Fin 2, link_marginal_cost = Fin 0\<rparr>)],
      lines_t := [(''s_max_pu'',
                   \<lparr>index = [0, hour],
                    columns = [(''L1'', [Fin 1, Fin 0.5]), (''L2'', [Fin 0.7, Fin 0.7])]\<rparr>)],
      links_t := [(''p_max_pu'',
                   \<lparr>index = [0, hour],
                    columns = [(''K1'', [Fin 1, Fin 1]), (''K2'', [Fin 0.9, Fin 1])]\<rparr>)]\<rparr>"

text \<open>
  The same grid with the DC link's maximum capacity at 20 and the pipeline's at 40.
\<close>

definition pipeline_net :: network where
  "pipeline_net = grid_net
     \<lparr>links := [(''K1'', \<lparr>link_carrier = ''DC'', link_bus0 = ''DE2'', link_bus1 = ''FR1'',
                         p_nom = Fin 10, p_nom_min = Fin 0, p_nom_max = Fin 20,
                         p_nom_extendable = False, link_length = Fin 30,
                         link_capital_cost = Fin 3, link_marginal_cost = Fin 0\<rparr>),
                (''K2'', \<lparr>link_carrier = ''H2 pipeline'', link_bus0 = ''DE1'',
                         link_bus1 = ''DE2'', p_nom = Fin 10, p_nom_min = Fin 0,
                         p_nom_max = Fin 40, p_nom_extendable = False, link_length = Fin 15,
                         link_capital_cost = Fin 2, link_marginal_cost = Fin 0\<rparr>)]\<rparr>"

text \<open>A cost table that gives every line and link the capital cost it has.\<close>

definition keep_costs :: costs where
  "keep_costs = \<lparr>line_cost = line_capital_cost, link_cost = link_capital_cost\<rparr>"

text \<open>
  Two generators and a storage unit over three carriers with a CO2 intensity, two
  snapshots, and a time-varying marginal cost for the first generator only.
\<close>

definition plant_net :: network where
  "plant_net = Network
     \<lparr>carriers :=
        \<lparr>index = [''OCGT'', ''solar'', ''hydro''],
         columns = [(''co2_emissions'', [Fin 0.2, Fin 0, Fin 0])]\<rparr>,
      generators :=
        [(''G1'', \<lparr>gen_carrier = ''OCGT'', gen_efficiency = Fin 0.4, gen_marginal_cost = Fin 50,
                   gen_capital_cost = Fin 0, gen_p_nom_max = PInf\<rparr>),
         (''G2'', \<lparr>gen_carrier = ''solar'', gen_efficiency = Fin 1, gen_marginal_cost = Fin 1,
                   gen_capital_cost = Fin 0, gen_p_nom_max = Fin 300\<rparr>)],
      storage_units :=
        [(''S1'', \<lparr>su_carrier = ''hydro'', efficiency_dispatch = Fin 0.9,
                   su_marginal_cost = Fin 2, su_capital_cost = Fin 0, su_p_nom_max = PInf\<rparr>)],
      snapshot_weightings :=
        \<lparr>index = [0, hour],
         columns = [(''objective'', [Fin 1, Fin 1]), (''stores'', [Fin 1, Fin 1]),
                    (''generators'', [Fin 1, Fin 1])]\<rparr>,
      generators_t :=
        [(''marginal_cost'', \<lparr>index = [0, hour], columns = [(''G1'', [Fin 50, Fin 60])]\<rparr>),
         (''p_max_pu'', \<lparr>index = [0, hour], columns = [(''G2'', [Fin 0, Fin 0.8])]\<rparr>)]\<rparr>"

text \<open>
  The same plant with a load and five hourly snapshots, a solar availability and a demand
  series.
\<close>

definition hourly_net :: network where
  "hourly_net = plant_net
     \<lparr>loads := [''D1''],
      snapshot_weightings :=
        \<lparr>index = [0, hour, 2 * hour, 3 * hour, 4 * hour],
         columns = [(''objective'', [Fin 1, Fin 1, Fin 1, Fin 1, Fin 1]),
                    (''stores'', [Fin 1, Fin 1, Fin 1, Fin 1, Fin 1]),
                    (''generators'', [Fin 1, Fin 1, Fin 1, Fin 1, Fin 1])]\<rparr>,
      generators_t :=
        [(''p_max_pu'',
          \<lparr>index = [0, hour, 2 * hour, 3 * hour, 4 * hour],
           columns = [(''G2'', [Fin 0, Fin 0.2, Fin 0.8, Fin 1, Fin 0.4])]\<rparr>)],
      loads_t :=
        [(''p_set'',
          \<lparr>index = [0, hour, 2 * hour, 3 * hour, 4 * hour],
           columns = [(''D1'', [Fin 10, Fin 20, Fin 30, Fin 40, Fin 60])]\<rparr>)]\<rparr>"

text \<open>
  The same plant with a load and eight hourly snapshots, and with four two-hourly
  snapshots of weight two.
\<close>

definition eight_hour_net :: network where
  "eight_hour_net = plant_net
     \<lparr>loads := [''D1''],
      snapshot_weightings :=
        \<lparr>index = [0, hour, 2 * hour, 3 * hour, 4 * hour, 5 * hour, 6 * hour, 7 * hour],
         columns = [(''objective'', [Fin 1, Fin 1, Fin 1, Fin 1, Fin 1, Fin 1, Fin 1, Fin 1]),
                    (''stores'', [Fin 1, Fin 1, Fin 1, Fin 1, Fin 1, Fin 1, Fin 1, Fin 1]),
                    (''generators'', [Fin 1, Fin 1, Fin 1, Fin 1, Fin 1, Fin 1, Fin 1, Fin 1])]\<rparr>,
      generators_t :=
        [(''p_max_pu'',
          \<lparr>index = [0, hour, 2 * hour, 3 * hour, 4 * hour, 5 * hour, 6 * hour, 7 * hour],
           columns = [(''G2'', [Fin 0, Fin 0.2, Fin 0.8, Fin 1, Fin 0.4, Fin 0.2, Fin 0, Fin 0])]\<rparr>)],
      loads_t :=
        [(''p_set'',
          \<lparr>index = [0, hour, 2 * hour, 3 * hour, 4 * hour, 5 * hour, 6 * hour, 7 * hour],
           columns = [(''D1'', [Fin 10, Fin 20, Fin 30, Fin 40, Fin 60, Fin 50, Fin 30, Fin 20])]\<rparr>)]\<rparr>"

definition two_hourly_net :: network where
  "two_hourly_net = plant_net
     \<lparr>loads := [''D1''],
      snapshot_weightings :=
        \<lparr>index = [0, 2 * hour, 4 * hour, 6 * hour],
         columns = [(''objective'', [Fin 2, Fin 2, Fin 2, Fin 2]),
                    (''stores'', [Fin 2, Fin 2, Fin 2, Fin 2]),
                    (''generators'', [Fin 2, Fin 2, Fin 2, Fin 2])]\<rparr>,
      generators_t :=
        [(''p_max_pu'',
          \<lparr>index = [0, 2 * hour, 4 * hour, 6 * hour],
           columns = [(''G2'', [Fin 0.1, Fin 0.9, Fin 0.3, Fin 0])]\<rparr>)],
      loads_t :=
        [(''p_set'',
          \<lparr>index = [0, 2 * hour, 4 * hour, 6 * hour],
           columns = [(''D1'', [Fin 15, Fin 35, Fin 55, Fin 25])]\<rparr>)]\<rparr>"

text \<open>
  An aggregation for the examples: segments of the given durations, each represented by
  the values of its first time step.  The example libraries read \<open>2h\<close> as two hours.
  The durations 2 and 3 are a segmentation of five hourly steps into two segments; the
  durations 1 and 1 are what a period of four hours, two steps of a two-hourly series,
  gives when it is cut into two segments.
\<close>

definition first_of_segment ::
  "nat list \<Rightarrow> timestamp frame \<Rightarrow> nat \<Rightarrow> int \<Rightarrow> string \<Rightarrow> error + nat frame" where
  "first_of_segment durations raw hours k solver =
     Inr \<lparr>index = durations,
          columns = map (\<lambda>(c, vs). (c, map (\<lambda>off. vs ! off) (segment_offsets durations)))
                      (columns raw)\<rparr>"

definition example_externals :: "nat list \<Rightarrow> externals" where
  "example_externals durations =
     \<lparr>to_offset = (\<lambda>s. if s = ''2h'' then Some (2 * hour) else None),
      int_of_str = (\<lambda>s. None),
      attr_default = (\<lambda>c a. Fin 0),
      tsam = Some (first_of_segment durations)\<rparr>"

definition both_configured :: config where
  "both_configured =
     \<lparr>resolution = Some (Str ''2h''), segmentation = Some (Num (Fin 2)), solver_name = ''cbc''\<rparr>"

text \<open>A stand-in for \<open>float\<close> on strings that reads \<open>0.5\<close> and nothing else.\<close>

definition half :: "string \<Rightarrow> flt option" where
  "half s = (if s = ''0.5'' then Some (Fin 0.5) else None)"

text \<open>
  A stand-in for regular expressions that takes the pattern literally, as Python does a
  pattern without special characters, such as \<open>solar\<close>.
\<close>

definition plain_search :: "string \<Rightarrow> (string \<Rightarrow> bool) option" where
  "plain_search pattern = Some (str_contains pattern)"

section \<open>Tables: lookup after an update\<close>

lemma map_of_map_upd_key:
  "map_of (map (\<lambda>(k, vs). if k = c then (k, f vs) else (k, vs)) cols) k' =
     (if k' = c then map_option f (map_of cols c) else map_of cols k')"
  by (induction cols) auto

lemma map_of_zip_map2:
  "map_of (zip idx (map2 g idx vs)) r = map_option (g r) (map_of (zip idx vs) r)"
proof (induction idx arbitrary: vs)
  case Nil
  then show ?case by simp
next
  case (Cons i idx)
  then show ?case by (cases vs) auto
qed

lemma map_of_zip_in_dom:
  "length vs = length idx \<Longrightarrow> r \<in> set idx \<Longrightarrow> \<exists>x. map_of (zip idx vs) r = Some x"
  by (metis domD dom_map_of_zip)

lemma index_loc_set: "loc_set df sel c v = Inr df' \<Longrightarrow> index df' = index df"
  by (auto simp: loc_set_def split: if_splits)

lemma cell_loc_set_other:
  "loc_set df sel c v = Inr df' \<Longrightarrow> k \<noteq> c \<Longrightarrow> cell df' r k = cell df r k"
  by (auto simp: cell_def loc_set_def map_of_map_upd_key column_names_def map_of_append
      split: option.splits if_splits dest: map_of_SomeD)

lemma wf_frame_column:
  "wf_frame df \<Longrightarrow> map_of (columns df) c = Some vs \<Longrightarrow> length vs = length (index df)"
  by (auto simp: wf_frame_def list_all_iff dest!: map_of_SomeD)

lemma cell_loc_set_same:
  assumes "wf_frame df" "r \<in> set (index df)" "loc_set df sel c v = Inr df'"
  shows "cell df' r c =
     (if r \<in> set sel then Some v
      else if c \<in> set (column_names df) then cell df r c else Some NaN)"
proof (cases "c \<in> set (column_names df)")
  case True
  then obtain vs where vs: "map_of (columns df) c = Some vs"
    by (metis column_names_def domD dom_map_of_conv_image_fst list.set_map)
  then have len: "length vs = length (index df)" using assms(1) wf_frame_column by blast
  obtain x where x: "map_of (zip (index df) vs) r = Some x"
    using map_of_zip_in_dom[OF len assms(2)] by blast
  have "df' = df\<lparr>columns :=
             map (\<lambda>(k, vs). if k = c
                    then (k, map2 (\<lambda>r x. if r \<in> set sel then v else x) (index df) vs)
                    else (k, vs)) (columns df)\<rparr>"
    using assms(3) True by (simp add: loc_set_def)
  then show ?thesis using True vs x
    by (simp add: cell_def map_of_map_upd_key map_of_zip_map2)
next
  case False
  then have none: "map_of (columns df) c = None"
    by (simp add: column_names_def map_of_eq_None_iff)
  have rows: "index df \<noteq> []" using assms(2) by auto
  have "df' = df\<lparr>columns :=
             columns df @ [(c, map (\<lambda>r. if r \<in> set sel then v else NaN) (index df))]\<rparr>"
    using assms(3) False rows by (simp add: loc_set_def)
  then show ?thesis using False none assms(2)
    by (simp add: cell_def map_of_append map_add_def map_of_zip_map)
qed

lemma loc_set_returns:
  "c \<in> set (column_names df) \<or> index df \<noteq> [] \<Longrightarrow> \<exists>df'. loc_set df sel c v = Inr df'"
  by (auto simp: loc_set_def)


section \<open>Gas limit\<close>

text \<open>
  On a carriers table without rows and without the gas-usage attribute the assignment
  raises, so that nothing is marked and no constraint is added.
\<close>

lemma add_gaslimit_no_carriers:
  assumes "index (carriers n) = []"
    and "''gas_usage'' \<notin> set (column_names (carriers n))"
  shows "add_gaslimit n gaslimit Nyears =
           Inl (ValueError ''cannot set a frame with no defined index and a scalar'')"
  using assms by (simp add: add_gaslimit_def loc_set_def Let_def)

text \<open>
  C6 (as amended).  On a network with a well-formed carriers table that has at least one
  carrier or has the gas-usage attribute already, and with no constraint named
  \<open>GasLimit\<close> yet, \<open>add_gaslimit\<close> returns the network with exactly one new
  global constraint, appended last: \<open>GasLimit\<close> on the attribute \<open>gas_usage\<close>,
  sense \<open><=\<close>, constant limit times years.  The gas-usage attribute is 1.0 for every
  carrier of the network among OCGT, CCGT and CHP; every other carrier keeps the value it
  had, and is missing (\<open>NaN\<close>, not 0) when the attribute did not exist before.  No
  other carrier attribute changes.
\<close>

theorem add_gaslimit_marks_and_limits:
  assumes "wf_frame (carriers n)"
    and "''gas_usage'' \<in> set (column_names (carriers n)) \<or> index (carriers n) \<noteq> []"
    and "''GasLimit'' \<notin> set (map fst (global_constraints n))"
  shows "\<exists>cs. add_gaslimit n gaslimit Nyears =
            Inr (n\<lparr>carriers := cs,
                   global_constraints :=
                     global_constraints n @ [(''GasLimit'', \<lparr>gc_type = ''primary_energy'', carrier_attribute = ''gas_usage'',
                        sense = ''<='', gc_constant = fmul gaslimit Nyears\<rparr>)]\<rparr>) \<and>
          index cs = index (carriers n) \<and>
          (\<forall>c \<in> set (index cs).
             cell cs c ''gas_usage'' =
               (if c \<in> {''OCGT'', ''CCGT'', ''CHP''} then Some (Fin 1)
                else if ''gas_usage'' \<in> set (column_names (carriers n))
                  then cell (carriers n) c ''gas_usage''
                else Some NaN) \<and>
             (\<forall>k. k \<noteq> ''gas_usage'' \<longrightarrow> cell cs c k = cell (carriers n) c k))"
proof -
  let ?sel = "filter (\<lambda>c. c \<in> set gas_carriers) (index (carriers n))"
  obtain cs where cs: "loc_set (carriers n) ?sel ''gas_usage'' (Fin 1) = Inr cs"
    using loc_set_returns[OF assms(2)] by blast
  have run: "add_gaslimit n gaslimit Nyears =
      Inr (n\<lparr>carriers := cs,
             global_constraints :=
               global_constraints n @ [(''GasLimit'', \<lparr>gc_type = ''primary_energy'', carrier_attribute = ''gas_usage'',
                        sense = ''<='', gc_constant = fmul gaslimit Nyears\<rparr>)]\<rparr>)"
    using assms(3) cs by (simp add: add_gaslimit_def add_GlobalConstraint_def Let_def)
  have idx: "index cs = index (carriers n)"
    using cs by (rule index_loc_set)
  have cells: "cell cs c ''gas_usage'' =
      (if c \<in> {''OCGT'', ''CCGT'', ''CHP''} then Some (Fin 1)
       else if ''gas_usage'' \<in> set (column_names (carriers n))
         then cell (carriers n) c ''gas_usage''
       else Some NaN)" if "c \<in> set (index (carriers n))" for c
    using cell_loc_set_same[OF assms(1) that cs] that
    by (simp add: gas_carriers_def)
  have others: "cell cs c k = cell (carriers n) c k" if "k \<noteq> ''gas_usage''" for c k
    using cell_loc_set_other[OF cs that] .
  show ?thesis
    using run cells idx others by (intro exI[of _ cs]) simp
qed

theorem add_gaslimit_marks_and_limits_witness:
  "\<exists>cs. add_gaslimit gas_net (Fin 100) (Fin 2) =
          Inr (gas_net\<lparr>carriers := cs,
                 global_constraints := [(''GasLimit'', \<lparr>gc_type = ''primary_energy'', carrier_attribute = ''gas_usage'',
                        sense = ''<='', gc_constant = fmul (Fin 100) (Fin 2)\<rparr>)]\<rparr>) \<and>
        cell cs ''OCGT'' ''gas_usage'' = Some (Fin 1) \<and>
        cell cs ''solar'' ''gas_usage'' = Some NaN \<and>
        cell cs ''solar'' ''co2_emissions'' = Some (Fin 0)"
proof -
  have wf: "wf_frame (carriers gas_net)"
    by (simp add: wf_frame_def gas_net_def Network_def)
  have rows: "''gas_usage'' \<in> set (column_names (carriers gas_net)) \<or>
      index (carriers gas_net) \<noteq> []"
    by (simp add: gas_net_def Network_def)
  have fresh: "''GasLimit'' \<notin> set (map fst (global_constraints gas_net))"
    by (simp add: gas_net_def Network_def)
  from add_gaslimit_marks_and_limits[OF wf rows fresh, of "Fin 100" "Fin 2"]
  obtain cs where cs: "add_gaslimit gas_net (Fin 100) (Fin 2) =
          Inr (gas_net\<lparr>carriers := cs,
                 global_constraints :=
                   global_constraints gas_net @ [(''GasLimit'', \<lparr>gc_type = ''primary_energy'', carrier_attribute = ''gas_usage'',
                        sense = ''<='', gc_constant = fmul (Fin 100) (Fin 2)\<rparr>)]\<rparr>)"
      "index cs = index (carriers gas_net)"
      "\<forall>c \<in> set (index cs).
             cell cs c ''gas_usage'' =
               (if c \<in> {''OCGT'', ''CCGT'', ''CHP''} then Some (Fin 1)
                else if ''gas_usage'' \<in> set (column_names (carriers gas_net))
                  then cell (carriers gas_net) c ''gas_usage''
                else Some NaN) \<and>
             (\<forall>k. k \<noteq> ''gas_usage'' \<longrightarrow> cell cs c k = cell (carriers gas_net) c k)"
    by blast
  have idx: "index cs = [''OCGT'', ''solar'']"
    using cs(2) by (simp add: gas_net_def Network_def)
  have a: "cell cs ''OCGT'' ''gas_usage'' = Some (Fin 1)"
    using cs(3) idx by simp
  have b: "cell cs ''solar'' ''gas_usage'' = Some NaN"
    using cs(3) idx by (simp add: gas_net_def Network_def column_names_def)
  have c: "cell cs ''solar'' ''co2_emissions'' = Some (Fin 0)"
    using cs(3) idx by (simp add: gas_net_def Network_def cell_def)
  have gcs: "global_constraints gas_net = []"
    by (simp add: gas_net_def Network_def)
  show ?thesis using cs(1) a b c gcs by (intro exI[of _ cs]) simp
qed

text \<open>
  C6 as stated fails: on a network with the carriers OCGT and solar and no gas-usage
  attribute, solar's gas usage after the call is missing, not 0.
\<close>

theorem add_gaslimit_other_carriers_not_zero:
  "(case add_gaslimit gas_net (Fin 100) (Fin 2) of
      Inl e \<Rightarrow> None
    | Inr n' \<Rightarrow> cell (carriers n') ''solar'' ''gas_usage'') = Some NaN"
  by (simp add: add_gaslimit_def add_GlobalConstraint_def gas_net_def Network_def Let_def
      loc_set_def column_names_def gas_carriers_def cell_def)

section \<open>Autarky\<close>


lemma drop_rows_selected:
  assumes "distinct (map fst table)"
  shows "drop_rows table (map fst (filter P table)) = filter (\<lambda>r. \<not> P r) table"
proof -
  have "(fst r \<notin> fst ` {x \<in> set table. P x}) = (\<not> P r)" if "r \<in> set table" for r
  proof
    assume "fst r \<notin> fst ` {x \<in> set table. P x}"
    then show "\<not> P r" using that by force
  next
    assume np: "\<not> P r"
    show "fst r \<notin> fst ` {x \<in> set table. P x}"
    proof
      assume "fst r \<in> fst ` {x \<in> set table. P x}"
      then obtain x where x: "x \<in> set table" "P x" "fst x = fst r" by force
      then have "x = r"
        using assms that by (metis eq_key_imp_eq_value prod.collapse)
      then show False using x np by simp
    qed
  qed
  then show ?thesis
    unfolding drop_rows_def by (intro filter_cong) (auto simp: case_prod_unfold)
qed

lemma drop_rows_all: "drop_rows table (map fst table) = []"
  by (force simp: drop_rows_def filter_empty_conv)

lemma ne_na_known: "a \<noteq> None \<Longrightarrow> b \<noteq> None \<Longrightarrow> ne_na a b = (a \<noteq> b)"
  by (cases a; cases b) auto

lemma column_names_drop_columns:
  "column_names (drop_columns df names) = filter (\<lambda>c. c \<notin> set names) (column_names df)"
  by (simp add: column_names_def drop_columns_def filter_map o_def case_prod_unfold)

lemma cell_drop_columns:
  "cell (drop_columns df names) r c = (if c \<in> set names then None else cell df r c)"
proof -
  have "map_of (filter (\<lambda>(c, vs). c \<notin> set names) cols) c =
        (if c \<in> set names then None else map_of cols c)" for cols :: "(string \<times> flt list) list"
    by (induction cols) auto
  then show ?thesis by (simp add: cell_def drop_columns_def split: option.splits)
qed

text \<open>
  C8.  On a network whose line and link names are unique and whose line and link
  endpoints are buses of the network: restricted to cross-border assets,
  \<open>enforce_autarky\<close> keeps exactly the lines and the links (of any carrier) whose two
  endpoint buses lie in the same country, and removes the others; unrestricted, it removes
  every line and every link of carrier DC, and keeps the other links.  In both cases the
  columns of the removed names are dropped from every time-varying table of lines and of
  links, and nothing else in the network changes.
\<close>

theorem enforce_autarky_removes:
  assumes "distinct (map fst (lines n))" and "distinct (map fst (links n))"
    and "known_endpoints n"
  shows "enforce_autarky n True =
           n\<lparr>lines := filter (\<lambda>(nm, l). bus_country n (line_bus0 l) =
                                        bus_country n (line_bus1 l)) (lines n),
             lines_t := drop_pnl (lines_t n)
                          (map fst (filter (\<lambda>(nm, l). bus_country n (line_bus0 l) \<noteq>
                                                      bus_country n (line_bus1 l)) (lines n))),
             links := filter (\<lambda>(nm, k). bus_country n (link_bus0 k) =
                                        bus_country n (link_bus1 k)) (links n),
             links_t := drop_pnl (links_t n)
                          (map fst (filter (\<lambda>(nm, k). bus_country n (link_bus0 k) \<noteq>
                                                      bus_country n (link_bus1 k)) (links n)))\<rparr> \<and>
         enforce_autarky n False =
           n\<lparr>lines := [],
             lines_t := drop_pnl (lines_t n) (map fst (lines n)),
             links := filter (\<lambda>(nm, k). link_carrier k \<noteq> ''DC'') (links n),
             links_t := drop_pnl (links_t n)
                          (map fst (filter (\<lambda>(nm, k). link_carrier k = ''DC'') (links n)))\<rparr>"
proof -
  let ?xl = "\<lambda>(nm, l). ne_na (bus_country n (line_bus0 l)) (bus_country n (line_bus1 l))"
  let ?xk = "\<lambda>(nm, k). ne_na (bus_country n (link_bus0 k)) (bus_country n (link_bus1 k))"
  let ?dl = "\<lambda>(nm, l). bus_country n (line_bus0 l) \<noteq> bus_country n (line_bus1 l)"
  let ?dk = "\<lambda>(nm, k). bus_country n (link_bus0 k) \<noteq> bus_country n (link_bus1 k)"
  have fl: "filter ?xl (lines n) = filter ?dl (lines n)"
    using assms(3)
    by (intro filter_cong) (auto simp: known_endpoints_def list_all_iff ne_na_known)
  have fk: "filter ?xk (links n) = filter ?dk (links n)"
    using assms(3)
    by (intro filter_cong) (auto simp: known_endpoints_def list_all_iff ne_na_known)
  have l1: "drop_rows (lines n) (map fst (filter ?dl (lines n))) =
      filter (\<lambda>(nm, l). bus_country n (line_bus0 l) = bus_country n (line_bus1 l)) (lines n)"
    using drop_rows_selected[OF assms(1), of ?dl] by (simp add: case_prod_unfold)
  have k1: "drop_rows (links n) (map fst (filter ?dk (links n))) =
      filter (\<lambda>(nm, k). bus_country n (link_bus0 k) = bus_country n (link_bus1 k)) (links n)"
    using drop_rows_selected[OF assms(2), of ?dk] by (simp add: case_prod_unfold)
  have k2: "drop_rows (links n) (map fst (filter (\<lambda>(nm, k). link_carrier k = ''DC'') (links n))) =
      filter (\<lambda>(nm, k). link_carrier k \<noteq> ''DC'') (links n)"
    using drop_rows_selected[OF assms(2), of "\<lambda>(nm, k). link_carrier k = ''DC''"]
    by (simp add: case_prod_unfold)
  have t: "enforce_autarky n True =
      n\<lparr>lines := drop_rows (lines n) (map fst (filter ?dl (lines n))),
        lines_t := drop_pnl (lines_t n) (map fst (filter ?dl (lines n))),
        links := drop_rows (links n) (map fst (filter ?dk (links n))),
        links_t := drop_pnl (links_t n) (map fst (filter ?dk (links n)))\<rparr>"
    by (simp add: enforce_autarky_def mremove_Line_def mremove_Link_def fl fk Let_def)
  have f: "enforce_autarky n False =
      n\<lparr>lines := drop_rows (lines n) (map fst (lines n)),
        lines_t := drop_pnl (lines_t n) (map fst (lines n)),
        links := drop_rows (links n)
                   (map fst (filter (\<lambda>(nm, k). link_carrier k = ''DC'') (links n))),
        links_t := drop_pnl (links_t n)
                     (map fst (filter (\<lambda>(nm, k). link_carrier k = ''DC'') (links n)))\<rparr>"
    by (simp add: enforce_autarky_def mremove_Line_def mremove_Link_def Let_def)
  show ?thesis
    unfolding t f l1 k1 k2 drop_rows_all by simp
qed

theorem enforce_autarky_removes_witness:
  "map fst (lines (enforce_autarky grid_net True)) = [''L1''] \<and>
   map fst (links (enforce_autarky grid_net True)) = [''K2''] \<and>
   map (\<lambda>(attr, df). (attr, column_names df)) (lines_t (enforce_autarky grid_net True)) =
     [(''s_max_pu'', [''L1''])] \<and>
   map (\<lambda>(attr, df). (attr, column_names df)) (links_t (enforce_autarky grid_net True)) =
     [(''p_max_pu'', [''K2''])] \<and>
   map fst (lines (enforce_autarky grid_net False)) = [] \<and>
   map fst (links (enforce_autarky grid_net False)) = [''K2''] \<and>
   map (\<lambda>(attr, df). (attr, column_names df)) (lines_t (enforce_autarky grid_net False)) =
     [(''s_max_pu'', [])] \<and>
   map (\<lambda>(attr, df). (attr, column_names df)) (links_t (enforce_autarky grid_net False)) =
     [(''p_max_pu'', [''K2''])]"
proof -
  have d1: "distinct (map fst (lines grid_net))" by (simp add: grid_net_def Network_def)
  have d2: "distinct (map fst (links grid_net))" by (simp add: grid_net_def Network_def)
  have ke: "known_endpoints grid_net"
    by (simp add: known_endpoints_def grid_net_def Network_def bus_country_def)
  show ?thesis
    unfolding conjunct1[OF enforce_autarky_removes[OF d1 d2 ke]]
      conjunct2[OF enforce_autarky_removes[OF d1 d2 ke]]
    by (simp add: grid_net_def Network_def bus_country_def drop_pnl_def drop_columns_def
        column_names_def)
qed

section \<open>Capacity ceilings\<close>

lemma fless_irrefl: "\<not> fless x x"
  by (cases x) auto

lemma fle_not_fless: "fle x u \<Longrightarrow> \<not> fless u x"
  by (cases x; cases u) (auto simp: fle_def)

lemma clip_upper_idem: "clip_upper u (clip_upper u x) = clip_upper u x"
  by (simp add: clip_upper_def fless_irrefl)

lemma clip_upper_satisfied: "fle x u \<Longrightarrow> clip_upper u x = x"
  by (simp add: clip_upper_def fle_not_fless)

lemma set_line_nom_max_twice:
  "set_line_nom_max (set_line_nom_max n a b c d) a b c d = set_line_nom_max n a b c d"
  by (simp add: set_line_nom_max_def Let_def o_def case_prod_unfold clip_upper_idem)

lemma map_rows_id:
  assumes "\<And>nm r. (nm, r) \<in> set table \<Longrightarrow> f nm r = r"
  shows "map (\<lambda>(nm, r). (nm, f nm r)) table = table"
  using assms by (induction table) auto

lemma clip_dc_satisfied:
  "list_all (\<lambda>(nm, k). link_carrier k = ''DC'' \<longrightarrow> fle (p_nom_max k) u) ks \<Longrightarrow>
   filter (\<lambda>(nm, k). link_carrier k = ''DC'')
     (map (\<lambda>(nm, k). (nm, k\<lparr>p_nom_max := clip_upper u (p_nom_max k)\<rparr>)) ks) =
   filter (\<lambda>(nm, k). link_carrier k = ''DC'') ks"
  by (induction ks) (auto simp: clip_upper_satisfied)

lemma clip_upper_fixed: "clip_upper u x = x \<longleftrightarrow> \<not> fless u x"
  by (auto simp: clip_upper_def fless_irrefl)

lemma clip_links_fixed:
  "map (\<lambda>(nm, k). (nm, k\<lparr>p_nom_max := clip_upper u (p_nom_max k)\<rparr>)) ks = ks \<longleftrightarrow>
   list_all (\<lambda>(nm, k). \<not> fless u (p_nom_max k)) ks"
proof (induction ks)
  case Nil
  then show ?case by simp
next
  case (Cons a ks)
  obtain nm k where a: "a = (nm, k)" by (cases a)
  have "k\<lparr>p_nom_max := clip_upper u (p_nom_max k)\<rparr> = k \<longleftrightarrow> clip_upper u (p_nom_max k) = p_nom_max k"
    by (cases k) simp
  with Cons a show ?case by (simp add: clip_upper_fixed)
qed

text \<open>
  C9 (as amended).  With no finite positive extension budget, on a network whose lines
  and DC links all have a maximum capacity within the ceilings, applying
  \<open>set_line_nom_max\<close> twice equals applying it once, and one application leaves every
  line and every DC link as it was.  It leaves the whole network unchanged exactly when no
  link of any carrier has a maximum capacity above the link ceiling: the ceiling is
  applied to every link, whatever its carrier.
\<close>

theorem set_line_nom_max_reapplied:
  assumes "\<not> (isfinite s_ext \<and> fless (Fin 0) s_ext)"
    and "\<not> (isfinite p_ext \<and> fless (Fin 0) p_ext)"
    and "within_ceilings n s_set p_set"
  shows "set_line_nom_max (set_line_nom_max n s_set p_set s_ext p_ext) s_set p_set s_ext p_ext =
           set_line_nom_max n s_set p_set s_ext p_ext \<and>
         lines (set_line_nom_max n s_set p_set s_ext p_ext) = lines n \<and>
         filter (\<lambda>(nm, k). link_carrier k = ''DC'')
             (links (set_line_nom_max n s_set p_set s_ext p_ext)) =
           filter (\<lambda>(nm, k). link_carrier k = ''DC'') (links n) \<and>
         (set_line_nom_max n s_set p_set s_ext p_ext = n \<longleftrightarrow>
            list_all (\<lambda>(nm, k). \<not> fless p_set (p_nom_max k)) (links n))"
proof -
  let ?ls = "map (\<lambda>(nm, l). (nm, l\<lparr>s_nom_max := clip_upper s_set (s_nom_max l)\<rparr>)) (lines n)"
  let ?ks = "map (\<lambda>(nm, k). (nm, k\<lparr>p_nom_max := clip_upper p_set (p_nom_max k)\<rparr>)) (links n)"
  have run: "set_line_nom_max n s_set p_set s_ext p_ext = n\<lparr>lines := ?ls, links := ?ks\<rparr>"
    using assms(1,2) by (auto simp: set_line_nom_max_def Let_def)
  have ls: "?ls = lines n"
    using assms(3)
    by (intro map_rows_id) (auto simp: within_ceilings_def list_all_iff clip_upper_satisfied)
  have dc: "filter (\<lambda>(nm, k). link_carrier k = ''DC'') ?ks =
      filter (\<lambda>(nm, k). link_carrier k = ''DC'') (links n)"
    using assms(3) by (simp add: within_ceilings_def clip_dc_satisfied)
  have "n\<lparr>lines := lines n, links := ?ks\<rparr> = n \<longleftrightarrow> ?ks = links n"
    by (cases n) simp
  then have same: "set_line_nom_max n s_set p_set s_ext p_ext = n \<longleftrightarrow>
      list_all (\<lambda>(nm, k). \<not> fless p_set (p_nom_max k)) (links n)"
    unfolding run ls by (simp only: clip_links_fixed)
  have twice: "set_line_nom_max (set_line_nom_max n s_set p_set s_ext p_ext) s_set p_set s_ext p_ext =
      set_line_nom_max n s_set p_set s_ext p_ext"
    by (rule set_line_nom_max_twice)
  have l: "lines (set_line_nom_max n s_set p_set s_ext p_ext) = lines n"
    unfolding run using ls by simp
  have d: "filter (\<lambda>(nm, k). link_carrier k = ''DC'')
        (links (set_line_nom_max n s_set p_set s_ext p_ext)) =
      filter (\<lambda>(nm, k). link_carrier k = ''DC'') (links n)"
    unfolding run using dc by simp
  show ?thesis
    using twice l d same by blast
qed

theorem set_line_nom_max_reapplied_witness:
  "map (\<lambda>(nm, l). (nm, s_nom_max l)) (lines (set_line_nom_max grid_net (Fin 400) (Fin 60) PInf PInf)) =
     [(''L1'', Fin 400), (''L2'', Fin 400)] \<and>
   map (\<lambda>(nm, k). (nm, p_nom_max k)) (links (set_line_nom_max grid_net (Fin 400) (Fin 60) PInf PInf)) =
     [(''K1'', Fin 60), (''K2'', Fin 40)] \<and>
   set_line_nom_max (set_line_nom_max grid_net (Fin 400) (Fin 60) PInf PInf)
       (Fin 400) (Fin 60) PInf PInf =
     set_line_nom_max grid_net (Fin 400) (Fin 60) PInf PInf"
proof -
  let ?n = "set_line_nom_max grid_net (Fin 400) (Fin 60) PInf PInf"
  have e: "\<not> (isfinite PInf \<and> fless (Fin 0) PInf)" by simp
  have w: "within_ceilings ?n (Fin 400) (Fin 60)"
    by (simp add: within_ceilings_def set_line_nom_max_def grid_net_def Network_def
        clip_upper_def fle_def)
  have all: "list_all (\<lambda>(nm, k). \<not> fless (Fin 60) (p_nom_max k)) (links ?n)"
    by (simp add: set_line_nom_max_def grid_net_def Network_def clip_upper_def)
  have fp: "set_line_nom_max ?n (Fin 400) (Fin 60) PInf PInf = ?n"
    using set_line_nom_max_reapplied[OF e e w] all by blast
  show ?thesis
    using fp by (simp add: set_line_nom_max_def grid_net_def Network_def clip_upper_def)
qed

text \<open>
  C9 as stated fails: with no extension budget, no line ceiling and a link ceiling of 30,
  the lines and the DC link (at 20) of the example are within the ceilings, and yet the
  call changes the network: the hydrogen pipeline's maximum capacity goes from 40 to 30.
\<close>

theorem pipeline_above_link_ceiling_is_clipped:
  "within_ceilings pipeline_net PInf (Fin 30) \<and>
   set_line_nom_max pipeline_net PInf (Fin 30) PInf PInf \<noteq> pipeline_net \<and>
   map (\<lambda>(nm, k). (nm, link_carrier k, p_nom_max k)) (links pipeline_net) =
     [(''K1'', ''DC'', Fin 20), (''K2'', ''H2 pipeline'', Fin 40)] \<and>
   map (\<lambda>(nm, k). (nm, link_carrier k, p_nom_max k))
       (links (set_line_nom_max pipeline_net PInf (Fin 30) PInf PInf)) =
     [(''K1'', ''DC'', Fin 20), (''K2'', ''H2 pipeline'', Fin 30)]"
proof -
  have w: "within_ceilings pipeline_net PInf (Fin 30)"
    by (simp add: within_ceilings_def pipeline_net_def grid_net_def Network_def fle_def)
  have before: "map (\<lambda>(nm, k). (nm, link_carrier k, p_nom_max k)) (links pipeline_net) =
      [(''K1'', ''DC'', Fin 20), (''K2'', ''H2 pipeline'', Fin 40)]"
    by (simp add: pipeline_net_def)
  have after: "map (\<lambda>(nm, k). (nm, link_carrier k, p_nom_max k))
        (links (set_line_nom_max pipeline_net PInf (Fin 30) PInf PInf)) =
      [(''K1'', ''DC'', Fin 20), (''K2'', ''H2 pipeline'', Fin 30)]"
    by (simp add: set_line_nom_max_def pipeline_net_def clip_upper_def)
  from before after
  have "set_line_nom_max pipeline_net PInf (Fin 30) PInf PInf \<noteq> pipeline_net"
    by auto
  with w before after show ?thesis by simp
qed

section \<open>Transmission expansion limit\<close>

lemma zip_map_same: "zip (map g xs) (map h xs) = map (\<lambda>x. (g x, h x)) xs"
  by (induction xs) auto

text \<open>
  The two ways the call fails: a factor that is neither the sentinel nor a number, and a
  limit whose name is taken already.
\<close>

lemma set_transmission_limit_not_a_number:
  "factor \<noteq> Str ''opt'' \<Longrightarrow> py_float parse factor = Inl e \<Longrightarrow>
   set_transmission_limit parse n ll_type factor cs Nyears = Inl e"
  by (simp add: set_transmission_limit_def Let_def)

lemma set_transmission_limit_name_taken:
  "factor \<noteq> Str ''opt'' \<Longrightarrow> py_float parse factor = Inr f \<Longrightarrow>
   ''l'' @ ll_type @ ''_limit'' \<in> set (map fst (global_constraints n)) \<Longrightarrow>
   set_transmission_limit parse n ll_type factor cs Nyears =
     Inl (AssertionError (''l'' @ ll_type @ ''_limit''))"
  by (simp add: set_transmission_limit_def Let_def add_GlobalConstraint_def
      update_transmission_costs_def)

text \<open>
  C1.  For a factor that is the sentinel \<open>opt\<close>, or one \<open>float\<close> reads as \<open>f\<close> while
  no constraint of the limit's name exists yet, \<open>set_transmission_limit\<close> returns a
  network in which
  \<^item> every line is extendable with minimum capacity equal to its capacity before the call,
    and every DC link is extendable with minimum capacity equal to its power capacity
    before the call, exactly when the factor is \<open>opt\<close> or \<open>f > 1.0\<close>; otherwise these
    attributes are the ones before the call, as they are for links of other carriers;
  \<^item> one global constraint is appended, of the cost or volume expansion-limit type, on
    the carriers AC and DC, with sense \<open><=\<close> and constant \<open>f\<close> times the reference,
    exactly when the factor is not \<open>opt\<close>; for \<open>opt\<close> the constraints are unchanged.
\<close>

theorem set_transmission_limit_effects:
  assumes "factor = Str ''opt'' \<or>
           (py_float parse factor = Inr f \<and>
            ''l'' @ ll_type @ ''_limit'' \<notin> set (map fst (global_constraints n)))"
  shows "\<exists>n'. set_transmission_limit parse n ll_type factor cs Nyears = Inr n' \<and>
          map (\<lambda>(nm, l). (nm, s_nom_min l, s_nom_extendable l)) (lines n') =
            map (\<lambda>(nm, l). if factor = Str ''opt'' \<or> fless (Fin 1) f
                            then (nm, line_s_nom n l, True)
                            else (nm, s_nom_min l, s_nom_extendable l)) (lines n) \<and>
          map (\<lambda>(nm, k). (nm, p_nom_min k, p_nom_extendable k)) (links n') =
            map (\<lambda>(nm, k). if (factor = Str ''opt'' \<or> fless (Fin 1) f) \<and> link_carrier k = ''DC''
                            then (nm, p_nom k, True)
                            else (nm, p_nom_min k, p_nom_extendable k)) (links n) \<and>
          global_constraints n' =
            (if factor = Str ''opt'' then global_constraints n
             else global_constraints n @
                    [(''l'' @ ll_type @ ''_limit'',
                      \<lparr>gc_type = ''transmission_'' @
                           (if ll_type = ''c'' then ''expansion_cost'' else ''volume_expansion'') @
                           ''_limit'',
                       carrier_attribute = ''AC, DC'', sense = ''<='',
                       gc_constant = fmul f (transmission_ref n ll_type)\<rparr>)])"
proof (cases "factor = Str ''opt''")
  case True
  then show ?thesis
    by (simp add: set_transmission_limit_def Let_def update_transmission_costs_def
        lines_s_nom_def zip_map_same o_def case_prod_unfold)
next
  case False
  with assms have f: "py_float parse factor = Inr f"
    and fresh: "''l'' @ ll_type @ ''_limit'' \<notin> set (map fst (global_constraints n))"
    by auto
  show ?thesis
  proof (cases "fless (Fin 1) f")
    case True
    with False f fresh show ?thesis
      by (simp add: set_transmission_limit_def Let_def update_transmission_costs_def
          add_GlobalConstraint_def lines_s_nom_def zip_map_same o_def case_prod_unfold)
  next
    case nogrant: False
    with False f fresh show ?thesis
      by (simp add: set_transmission_limit_def Let_def update_transmission_costs_def
          add_GlobalConstraint_def o_def case_prod_unfold)
  qed
qed

theorem set_transmission_limit_effects_witness:
  "(\<exists>n'. set_transmission_limit (\<lambda>s. None) grid_net ''v'' (Num (Fin 2)) keep_costs (Fin 1) = Inr n' \<and>
      map (\<lambda>(nm, l). (nm, s_nom_min l, s_nom_extendable l)) (lines n') =
        [(''L1'', Fin 100, True), (''L2'', Fin 200, True)] \<and>
      map (\<lambda>(nm, k). (nm, p_nom_min k, p_nom_extendable k)) (links n') =
        [(''K1'', Fin 50, True), (''K2'', Fin 0, False)] \<and>
      global_constraints n' =
        [(''lv_limit'',
          \<lparr>gc_type = ''transmission_volume_expansion_limit'', carrier_attribute = ''AC, DC'',
           sense = ''<='', gc_constant = Fin 13000\<rparr>)]) \<and>
   (\<exists>n'. set_transmission_limit (\<lambda>s. None) grid_net ''c'' (Num (Fin 0.5)) keep_costs (Fin 1) = Inr n' \<and>
      map (\<lambda>(nm, l). (nm, s_nom_min l, s_nom_extendable l)) (lines n') =
        [(''L1'', Fin 0, False), (''L2'', Fin 0, False)] \<and>
      map (\<lambda>(nm, k). (nm, p_nom_min k, p_nom_extendable k)) (links n') =
        [(''K1'', Fin 0, False), (''K2'', Fin 0, False)] \<and>
      global_constraints n' =
        [(''lc_limit'',
          \<lparr>gc_type = ''transmission_expansion_cost_limit'', carrier_attribute = ''AC, DC'',
           sense = ''<='', gc_constant = Fin 1025\<rparr>)]) \<and>
   (\<exists>n'. set_transmission_limit (\<lambda>s. None) grid_net ''v'' (Str ''opt'') keep_costs (Fin 1) = Inr n' \<and>
      map (\<lambda>(nm, l). (nm, s_nom_min l, s_nom_extendable l)) (lines n') =
        [(''L1'', Fin 100, True), (''L2'', Fin 200, True)] \<and>
      map (\<lambda>(nm, k). (nm, p_nom_min k, p_nom_extendable k)) (links n') =
        [(''K1'', Fin 50, True), (''K2'', Fin 0, False)] \<and>
      global_constraints n' = [])"
proof -
  have a: "Num (Fin 2) = Str ''opt'' \<or>
      (py_float (\<lambda>s. None) (Num (Fin 2)) = Inr (Fin 2) \<and>
       ''l'' @ ''v'' @ ''_limit'' \<notin> set (map fst (global_constraints grid_net)))"
    by (simp add: grid_net_def Network_def)
  have b: "Num (Fin 0.5) = Str ''opt'' \<or>
      (py_float (\<lambda>s. None) (Num (Fin 0.5)) = Inr (Fin 0.5) \<and>
       ''l'' @ ''c'' @ ''_limit'' \<notin> set (map fst (global_constraints grid_net)))"
    by (simp add: grid_net_def Network_def)
  have c: "Str ''opt'' = Str ''opt'' \<or>
      (py_float (\<lambda>s. None) (Str ''opt'') = Inr (Fin 0) \<and>
       ''l'' @ ''v'' @ ''_limit'' \<notin> set (map fst (global_constraints grid_net)))"
    by simp
  show ?thesis
    using set_transmission_limit_effects[OF a, of keep_costs "Fin 1"]
      set_transmission_limit_effects[OF b, of keep_costs "Fin 1"]
      set_transmission_limit_effects[OF c, of keep_costs "Fin 1"]
    by (simp add: grid_net_def Network_def line_s_nom_def transmission_ref_def dot_def
        fsum_def lines_s_nom_def links_dc_def)
qed

section \<open>Emission prices\<close>

lemma fadd_zero_right: "x \<noteq> NaN \<Longrightarrow> fadd x (Fin 0) = x"
  by (cases x) auto

lemma filter_key_distinct:
  "distinct (map fst cols) \<Longrightarrow> (k, v) \<in> set cols \<Longrightarrow> filter (\<lambda>(c, vs). c = k) cols = [(k, v)]"
proof (induction cols)
  case Nil
  then show ?case by simp
next
  case (Cons a cols)
  show ?case
  proof (cases "fst a = k")
    case True
    with Cons.prems have "a = (k, v)"
      using Cons.prems True by (cases a) (auto simp: image_iff)
    moreover have "filter (\<lambda>(c, vs). c = k) cols = []"
      using Cons.prems True by (auto simp: filter_empty_conv image_iff)
    ultimately show ?thesis by simp
  next
    case False
    with Cons show ?thesis by (auto simp: case_prod_unfold)
  qed
qed

lemma sum_skipna_restrict:
  assumes "\<And>x. x \<in> set xs \<Longrightarrow> \<not> R x \<Longrightarrow> g x = NaN"
  shows "sum_skipna (map g xs) = sum_skipna (map g (filter R xs))"
proof -
  have "filter notna (map g xs) = filter notna (map g (filter R xs))"
    using assms by (induction xs) (auto simp: notna_def)
  then show ?thesis by (simp add: sum_skipna_def)
qed

lemma sum_skipna_single: "sum_skipna [x] = (if notna x then x else Fin 0)"
  by (simp add: sum_skipna_def fsum_def notna_def fadd_zero_right)

lemma map_of_enumerate_zip:
  assumes "length vs = length idx"
    and "\<And>j. j < length idx \<Longrightarrow> f (m + j) = g (vs ! j)"
  shows "map_of (map (\<lambda>(i, r). (r, f i)) (enumerate m idx)) k =
         map_option g (map_of (zip idx vs) k)"
  using assms
proof (induction idx arbitrary: m vs)
  case Nil
  then show ?case by simp
next
  case (Cons r idx)
  then obtain v vs' where vs: "vs = v # vs'" by (cases vs) auto
  have h0: "f m = g v" using Cons.prems(2)[of 0] vs by simp
  have step: "map_of (map (\<lambda>(i, r). (r, f i)) (enumerate (Suc m) idx)) k =
      map_option g (map_of (zip idx vs') k)"
  proof (rule Cons.IH)
    show "length vs' = length idx" using Cons.prems(1) vs by simp
    fix j assume "j < length idx"
    then show "f (Suc m + j) = g (vs' ! j)" using Cons.prems(2)[of "Suc j"] vs by simp
  qed
  show ?case using vs h0 step by simp
qed

lemma ep_single_co2:
  assumes wf: "wf_frame cs" and dist: "distinct (column_names cs)"
    and col: "map_of (columns cs) ''co2_emissions'' = Some vs0"
  shows "map_of (ep [(''co2'', p)] cs) k =
         map_option (\<lambda>v. if notna (fmul p v) then fmul p v else Fin 0)
           (map_of (zip (index cs) vs0) k)"
proof -
  let ?Q = "\<lambda>(c, vs). str_contains ''_emissions'' c"
  let ?g = "\<lambda>v. if notna (fmul p v) then fmul p v else Fin 0"
  have mem: "(''co2_emissions'', vs0) \<in> set (columns cs)" using col by (rule map_of_SomeD)
  have len: "length vs0 = length (index cs)" using wf col by (rule wf_frame_column)
  have row: "sum_skipna (map (\<lambda>col. col ! j) (emission_products [(''co2'', p)] cs)) = ?g (vs0 ! j)"
    if j: "j < length (index cs)" for j
  proof -
    let ?h = "\<lambda>(c, vs). if c = ''co2_emissions'' then fmul p (vs ! j) else NaN"
    have lens: "length vs = length (index cs)" if "(c, vs) \<in> set (columns cs)" for c vs
      using wf that by (auto simp: wf_frame_def list_all_iff)
    have e1: "map (\<lambda>col. col ! j) (emission_products [(''co2'', p)] cs) =
          map ?h (filter ?Q (columns cs))"
      using j lens by (auto simp: emission_products_def)
    have e2: "sum_skipna (map ?h (filter ?Q (columns cs))) =
        sum_skipna (map ?h (filter (\<lambda>(c, vs). c = ''co2_emissions'') (filter ?Q (columns cs))))"
      by (rule sum_skipna_restrict) auto
    have e3: "filter (\<lambda>(c, vs). c = ''co2_emissions'') (filter ?Q (columns cs)) =
        filter ?Q (filter (\<lambda>(c, vs). c = ''co2_emissions'') (columns cs))"
      by (simp add: conj_commute)
    have e4: "filter (\<lambda>(c, vs). c = ''co2_emissions'') (columns cs) = [(''co2_emissions'', vs0)]"
      using dist mem unfolding column_names_def by (rule filter_key_distinct)
    show ?thesis
      unfolding e1 e2 e3 e4 by (simp add: sum_skipna_single startswith_def)
  qed
  show ?thesis
    unfolding ep_def
    by (rule map_of_enumerate_zip[OF len]) (simp add: row)
qed

lemma gen_ep_single_co2:
  assumes "wf_frame (carriers n)" and "distinct (column_names (carriers n))"
    and "isfinite (co2_intensity n k)"
  shows "(case map_of (ep [(''co2'', Fin p)] (carriers n)) k of None \<Rightarrow> NaN | Some x \<Rightarrow> x) =
         fmul (Fin p) (co2_intensity n k)"
proof -
  from assms(3) obtain c where c: "cell (carriers n) k ''co2_emissions'' = Some (Fin c)"
    by (cases "cell (carriers n) k ''co2_emissions''"; cases "co2_intensity n k")
      (auto simp: co2_intensity_def)
  then obtain vs0 where vs0: "map_of (columns (carriers n)) ''co2_emissions'' = Some vs0"
    and at: "map_of (zip (index (carriers n)) vs0) k = Some (Fin c)"
    by (auto simp: cell_def split: option.splits)
  show ?thesis
    using ep_single_co2[OF assms(1,2) vs0, of "Fin p" k] at c
    by (simp add: co2_intensity_def notna_def)
qed

lemma pnl_get_generators_upd [simp]:
  "pnl_get (n\<lparr>generators := gs\<rparr>) tables attr = pnl_get n tables attr"
  by (simp add: pnl_get_def snapshots_def split: option.splits)

text \<open>
  C4.  \<open>add_emission_prices\<close> with the single price \<open>co2: p\<close>, on a network whose
  carriers table is well formed and gives every generator's and storage unit's carrier a
  finite CO2 intensity, and whose time-varying marginal-cost table has generator names
  as columns: every generator's static marginal cost grows by \<open>p * c / e\<close>, with \<open>c\<close>
  the intensity of its carrier and \<open>e\<close> its efficiency; the time-varying marginal-cost
  table keeps its columns, and every value of column \<open>g\<close> grows by the increment of
  generator \<open>g\<close>; every storage unit's static marginal cost grows by \<open>p * c\<close> over its
  dispatch efficiency; nothing else changes, so no time-varying table of the storage
  units does, and the price map is left as it was.
\<close>

theorem add_emission_prices_single_co2:
  assumes "h r = [(''co2'', Fin p)]"
    and "wf_frame (carriers n)" and "distinct (column_names (carriers n))"
    and "list_all (\<lambda>(nm, g). isfinite (co2_intensity n (gen_carrier g))) (generators n)"
    and "list_all (\<lambda>(nm, s). isfinite (co2_intensity n (su_carrier s))) (storage_units n)"
    and "set (column_names (pnl_get n (generators_t n) ''marginal_cost'')) \<subseteq>
         set (map fst (generators n))"
  shows "add_emission_prices h n (Some r) False =
     (h, Inr (n\<lparr>generators :=
                  map (\<lambda>(nm, g).
                         (nm, g\<lparr>gen_marginal_cost :=
                                   fadd (gen_marginal_cost g)
                                     (fdiv (fmul (Fin p) (co2_intensity n (gen_carrier g)))
                                        (gen_efficiency g))\<rparr>))
                    (generators n),
                generators_t :=
                  pnl_set (generators_t n) ''marginal_cost''
                    ((pnl_get n (generators_t n) ''marginal_cost'')
                       \<lparr>columns :=
                          map (\<lambda>(c, vs).
                                 (c, map (\<lambda>v. fadd v
                                       (case map_of (generators n) c of
                                          None \<Rightarrow> NaN
                                        | Some g \<Rightarrow>
                                            fdiv (fmul (Fin p) (co2_intensity n (gen_carrier g)))
                                              (gen_efficiency g))) vs))
                            (columns (pnl_get n (generators_t n) ''marginal_cost''))\<rparr>),
                storage_units :=
                  map (\<lambda>(nm, s).
                         (nm, s\<lparr>su_marginal_cost :=
                                   fadd (su_marginal_cost s)
                                     (fdiv (fmul (Fin p) (co2_intensity n (su_carrier s)))
                                        (efficiency_dispatch s))\<rparr>))
                    (storage_units n)\<rparr>))"
proof -
  let ?pr = "[(''co2'', Fin p)]"
  let ?mc = "pnl_get n (generators_t n) ''marginal_cost''"
  have g: "gen_ep ?pr n g =
      fdiv (fmul (Fin p) (co2_intensity n (gen_carrier g))) (gen_efficiency g)"
    if "(nm, g) \<in> set (generators n)" for nm g
    using that assms(4) gen_ep_single_co2[OF assms(2,3), of "gen_carrier g" p]
    by (auto simp: gen_ep_def list_all_iff)
  have s: "su_ep ?pr n s =
      fdiv (fmul (Fin p) (co2_intensity n (su_carrier s))) (efficiency_dispatch s)"
    if "(nm, s) \<in> set (storage_units n)" for nm s
    using that assms(5) gen_ep_single_co2[OF assms(2,3), of "su_carrier s" p]
    by (auto simp: su_ep_def list_all_iff)
  have gens: "map (\<lambda>(nm, g). (nm, g\<lparr>gen_marginal_cost :=
                    fadd (gen_marginal_cost g) (gen_ep ?pr n g)\<rparr>)) (generators n) =
      map (\<lambda>(nm, g). (nm, g\<lparr>gen_marginal_cost := fadd (gen_marginal_cost g)
               (fdiv (fmul (Fin p) (co2_intensity n (gen_carrier g))) (gen_efficiency g))\<rparr>))
        (generators n)"
    by (rule map_cong) (auto simp: g)
  have sus: "map (\<lambda>(nm, s). (nm, s\<lparr>su_marginal_cost :=
                    fadd (su_marginal_cost s) (su_ep ?pr n s)\<rparr>)) (storage_units n) =
      map (\<lambda>(nm, s). (nm, s\<lparr>su_marginal_cost := fadd (su_marginal_cost s)
               (fdiv (fmul (Fin p) (co2_intensity n (su_carrier s))) (efficiency_dispatch s))\<rparr>))
        (storage_units n)"
    by (rule map_cong) (auto simp: s)
  have inc: "(case map_of (generators n) c of None \<Rightarrow> NaN | Some g \<Rightarrow> gen_ep ?pr n g) =
      (case map_of (generators n) c of None \<Rightarrow> NaN
       | Some g \<Rightarrow> fdiv (fmul (Fin p) (co2_intensity n (gen_carrier g))) (gen_efficiency g))"
    for c
    by (cases "map_of (generators n) c") (auto dest: map_of_SomeD simp: g)
  have known: "filter (\<lambda>c. c \<notin> set (map fst (map (\<lambda>(nm, g). (nm, g\<lparr>gen_marginal_cost :=
                    fadd (gen_marginal_cost g) (gen_ep ?pr n g)\<rparr>)) (generators n))))
                 (column_names ?mc) = []"
    using assms(6) by (auto simp: filter_empty_conv o_def case_prod_unfold)
  show ?thesis
    unfolding add_emission_prices_def Let_def
    using assms(1) known by (simp add: inc gens sus fun_upd_idem)
qed

theorem add_emission_prices_single_co2_witness:
  "(case snd (add_emission_prices (initial_heap(1 := [(''co2'', Fin 10)])) plant_net (Some 1) False) of
      Inl e \<Rightarrow> False
    | Inr n' \<Rightarrow>
        map (\<lambda>(nm, g). (nm, gen_marginal_cost g)) (generators n') =
          [(''G1'', Fin 55), (''G2'', Fin 1)] \<and>
        map_of (generators_t n') ''marginal_cost'' =
          Some \<lparr>index = [0, hour], columns = [(''G1'', [Fin 55, Fin 65])]\<rparr> \<and>
        map (\<lambda>(nm, s). (nm, su_marginal_cost s)) (storage_units n') = [(''S1'', Fin 2)] \<and>
        storage_units_t n' = storage_units_t plant_net)"
proof -
  let ?h = "initial_heap(1 := [(''co2'', Fin 10)])"
  have a1: "?h 1 = [(''co2'', Fin 10)]" by simp
  have a2: "wf_frame (carriers plant_net)"
    by (simp add: wf_frame_def plant_net_def Network_def)
  have a3: "distinct (column_names (carriers plant_net))"
    by (simp add: column_names_def plant_net_def Network_def)
  have a4: "list_all (\<lambda>(nm, g). isfinite (co2_intensity plant_net (gen_carrier g)))
      (generators plant_net)"
    by (simp add: plant_net_def Network_def co2_intensity_def cell_def)
  have a5: "list_all (\<lambda>(nm, s). isfinite (co2_intensity plant_net (su_carrier s)))
      (storage_units plant_net)"
    by (simp add: plant_net_def Network_def co2_intensity_def cell_def)
  have a6: "set (column_names (pnl_get plant_net (generators_t plant_net) ''marginal_cost'')) \<subseteq>
      set (map fst (generators plant_net))"
    by (simp add: plant_net_def Network_def pnl_get_def column_names_def)
  show ?thesis
    unfolding add_emission_prices_single_co2[where h = "?h" and r = 1 and p = 10 and n = plant_net,
        OF a1 a2 a3 a4 a5 a6]
    by (simp add: plant_net_def Network_def co2_intensity_def cell_def pnl_get_def pnl_set_def)
qed

text \<open>
  C10.  Called with \<open>exclude_co2\<close>, \<open>add_emission_prices\<close> removes the \<open>co2\<close> entry
  from the dict it was given: the heap holds the shortened dict at the argument's own
  reference, which is the shared default object when the argument is left out.  The
  removal persists: a later call on the same object (one that relies on the default, when
  the first did) finds no \<open>co2\<close> entry, and with \<open>exclude_co2\<close> it raises a KeyError.
\<close>

theorem add_emission_prices_pops_shared_dict:
  assumes "r = (case arg of None \<Rightarrow> default_emission_prices | Some a \<Rightarrow> a)"
    and "''co2'' \<in> set (map fst (h r))"
  shows "fst (add_emission_prices h n arg True) = h(r := filter (\<lambda>(k, v). k \<noteq> ''co2'') (h r)) \<and>
         add_emission_prices (fst (add_emission_prices h n arg True)) n' arg True =
           (fst (add_emission_prices h n arg True), Inl (KeyError ''co2''))"
proof -
  let ?h1 = "h(r := filter (\<lambda>(k, v). k \<noteq> ''co2'') (h r))"
  have first: "fst (add_emission_prices h n arg True) = ?h1"
    using assms by (simp add: add_emission_prices_def dict_pop_def Let_def split: sum.splits)
  have gone: "''co2'' \<notin> set (map fst (?h1 r))"
    by (auto simp: image_iff)
  have "add_emission_prices ?h1 n' arg True = (?h1, Inl (KeyError ''co2''))"
    using assms(1) gone by (simp add: add_emission_prices_def dict_pop_def Let_def)
  with first show ?thesis by simp
qed

theorem add_emission_prices_pops_shared_dict_witness:
  "fst (add_emission_prices initial_heap plant_net None True) default_emission_prices = [] \<and>
   snd (add_emission_prices (fst (add_emission_prices initial_heap plant_net None True))
          grid_net None True) = Inl (KeyError ''co2'')"
proof -
  have r: "default_emission_prices = (case None of None \<Rightarrow> default_emission_prices | Some a \<Rightarrow> a)"
    by simp
  have k: "''co2'' \<in> set (map fst (initial_heap default_emission_prices))"
    by (simp add: initial_heap_def)
  note t = add_emission_prices_pops_shared_dict[where r = default_emission_prices and arg = None
      and h = initial_heap and n = plant_net and n' = grid_net, OF r k]
  have a: "fst (add_emission_prices initial_heap plant_net None True) default_emission_prices = []"
    unfolding conjunct1[OF t] by (simp add: initial_heap_def)
  have b: "snd (add_emission_prices (fst (add_emission_prices initial_heap plant_net None True))
          grid_net None True) = Inl (KeyError ''co2'')"
    unfolding conjunct2[OF t] by simp
  show ?thesis by (rule conjI[OF a b])
qed

section \<open>Segmentation\<close>

lemma length_cumsum_from: "length (cumsum_from acc xs) = length xs"
  by (induction xs arbitrary: acc) auto

lemma nth_cumsum_from:
  "i < length xs \<Longrightarrow> cumsum_from acc xs ! i = acc + sum_list (take (Suc i) xs)"
proof (induction xs arbitrary: acc i)
  case Nil
  then show ?case by simp
next
  case (Cons x xs)
  then show ?case by (cases i) auto
qed

lemma length_segment_offsets: "ws \<noteq> [] \<Longrightarrow> length (segment_offsets ws) = length ws"
  by (simp add: segment_offsets_def length_cumsum_from)

lemma nth_segment_offsets:
  assumes "i < length ws"
  shows "segment_offsets ws ! i = sum_list (take i ws)"
proof (cases i)
  case 0
  then show ?thesis by (simp add: segment_offsets_def)
next
  case (Suc j)
  with assms have j: "j < length (butlast ws)" by simp
  have "take (Suc j) (butlast ws) = take (Suc j) ws"
    using assms Suc by (simp add: take_butlast)
  with j Suc show ?thesis
    by (simp add: segment_offsets_def nth_cumsum_from del: take_Suc_Cons)
qed

lemma segment_offsets_preceding:
  assumes "ws \<noteq> []"
  shows "segment_offsets ws = map (\<lambda>i. sum_list (take i ws)) [0..<length ws]"
  by (rule nth_equalityI) (simp_all add: length_segment_offsets[OF assms] nth_segment_offsets)

lemma denormalized_present:
  "set (map fst norms) \<subseteq> set (column_names segmented) \<Longrightarrow>
   \<exists>cols. denormalized segmented norms = Inr cols"
proof (induction norms)
  case Nil
  then show ?case by simp
next
  case (Cons a norms)
  obtain c m where a: "a = (c, m)" by (cases a)
  from Cons.prems a have "c \<in> fst ` set (columns segmented)"
    by (simp add: column_names_def)
  then obtain vs where "map_of (columns segmented) c = Some vs"
    by (metis domD dom_map_of_conv_image_fst)
  moreover from Cons obtain rest where "denormalized segmented norms = Inr rest" by auto
  ultimately show ?case using a by simp
qed

lemma map_fst_col_norm: "map fst (col_norm df) = column_names df"
  by (simp add: col_norm_def column_names_def case_prod_unfold)

lemma sum_skipna_Fin: "sum_skipna (map (\<lambda>d. Fin (f d)) xs) = Fin (sum_list (map f xs))"
  by (induction xs) (auto simp: sum_skipna_def fsum_def notna_def)

lemma real_sum_list: "sum_list (map real xs) = real (sum_list xs)"
  by (induction xs) auto

text \<open>
  C5 (as amended).  Let the \<open>tsam\<close> package be installed and its aggregation, given the
  normalized series of the network, return typical periods with at least one segment and
  with every column it was given, on a network with at least one snapshot.  Then
  \<open>apply_time_segmentation\<close> returns a network whose snapshots are the first original
  snapshot plus, for each segment, the summed durations of the segments before it, in
  hours, and whose weightings (objective, stores, generators) are the segments'
  durations.  Each column of the new weightings so adds up to the sum of the durations the
  aggregation returned, whatever that is: nothing compares it with the number of original
  snapshots.
\<close>

theorem apply_time_segmentation_snapshots:
  assumes lib: "tsam E = Some aggregate"
    and segs: "py_int E segments = Inr k"
    and raw: "raw = concat_columns [normalized (pnl_get n (generators_t n) ''p_max_pu''),
                                    normalized (pnl_get n (loads_t n) ''p_set''),
                                    normalized (pnl_get n (storage_units_t n) ''inflow'')]"
    and agg: "aggregate raw (length (index raw)) k solver = Inr segmented"
    and some: "index segmented \<noteq> []"
    and first: "snapshots n \<noteq> []"
    and cols: "set (column_names (pnl_get n (generators_t n) ''p_max_pu'')) \<union>
               set (column_names (pnl_get n (loads_t n) ''p_set'')) \<union>
               set (column_names (pnl_get n (storage_units_t n) ''inflow''))
               \<subseteq> set (column_names segmented)"
  shows "\<exists>n'. apply_time_segmentation E n segments solver = Inr n' \<and>
           snapshots n' =
             map (\<lambda>i. hd (snapshots n) + int (sum_list (take i (index segmented))) * hour)
               [0..<length (index segmented)] \<and>
           columns (snapshot_weightings n') =
             map (\<lambda>c. (c, map (\<lambda>d. Fin (real d)) (index segmented)))
               [''objective'', ''stores'', ''generators''] \<and>
           list_all (\<lambda>(c, w). sum_skipna w = Fin (real (sum_list (index segmented))))
             (columns (snapshot_weightings n'))"
proof -
  let ?p = "pnl_get n (generators_t n) ''p_max_pu''"
  let ?l = "pnl_get n (loads_t n) ''p_set''"
  let ?i = "pnl_get n (storage_units_t n) ''inflow''"
  let ?ws = "index segmented"
  let ?new = "map (\<lambda>off. hd (snapshots n) + int off * hour) (segment_offsets ?ws)"
  let ?w = "map (\<lambda>d. Fin (real d)) ?ws"
  obtain a where a: "denormalized segmented (col_norm ?p) = Inr a"
    using denormalized_present[of "col_norm ?p" segmented] cols by (auto simp: map_fst_col_norm)
  obtain b where b: "denormalized segmented (col_norm ?l) = Inr b"
    using denormalized_present[of "col_norm ?l" segmented] cols by (auto simp: map_fst_col_norm)
  obtain c where c: "denormalized segmented (col_norm ?i) = Inr c"
    using denormalized_present[of "col_norm ?i" segmented] cols by (auto simp: map_fst_col_norm)
  let ?n1 = "set_snapshots E n ?new"
  let ?n' = "?n1\<lparr>snapshot_weightings :=
                   \<lparr>index = ?new,
                    columns = [(''objective'', ?w), (''stores'', ?w), (''generators'', ?w)]\<rparr>,
                 generators_t := pnl_set (generators_t ?n1) ''p_max_pu'' \<lparr>index = ?new, columns = a\<rparr>,
                 loads_t := pnl_set (loads_t ?n1) ''p_set'' \<lparr>index = ?new, columns = b\<rparr>,
                 storage_units_t :=
                   pnl_set (storage_units_t ?n1) ''inflow'' \<lparr>index = ?new, columns = c\<rparr>\<rparr>"
  have len: "length ?ws = length ?new"
    using some by (simp add: length_segment_offsets)
  have run: "apply_time_segmentation E n segments solver = Inr ?n'"
    unfolding apply_time_segmentation_def Let_def
    using lib segs agg[unfolded raw] first len a b c by simp
  have snaps: "snapshots ?n' =
      map (\<lambda>i. hd (snapshots n) + int (sum_list (take i ?ws)) * hour) [0..<length ?ws]"
    by (simp add: snapshots_def segment_offsets_preceding[OF some])
  have total: "sum_skipna ?w = Fin (real (sum_list ?ws))"
    using sum_skipna_Fin[of real ?ws] by (simp add: real_sum_list)
  show ?thesis
    using run snaps total by (intro exI[of _ ?n']) simp
qed

theorem apply_time_segmentation_snapshots_witness:
  "\<exists>n'. apply_time_segmentation (example_externals [2, 3]) hourly_net (Num (Fin 2)) ''cbc'' = Inr n' \<and>
     snapshots n' = [0, 2 * hour] \<and>
     columns (snapshot_weightings n') =
       [(''objective'', [Fin 2, Fin 3]), (''stores'', [Fin 2, Fin 3]),
        (''generators'', [Fin 2, Fin 3])] \<and>
     list_all (\<lambda>(c, w). sum_skipna w = Fin 5) (columns (snapshot_weightings n'))"
proof -
  let ?E = "example_externals [2, 3]"
  let ?raw = "concat_columns [normalized (pnl_get hourly_net (generators_t hourly_net) ''p_max_pu''),
                              normalized (pnl_get hourly_net (loads_t hourly_net) ''p_set''),
                              normalized (pnl_get hourly_net (storage_units_t hourly_net) ''inflow'')]"
  let ?seg = "\<lparr>index = [2, 3],
               columns = map (\<lambda>(c, vs). (c, map (\<lambda>off. vs ! off) (segment_offsets [2, 3])))
                           (columns ?raw)\<rparr> :: nat frame"
  have lib: "tsam ?E = Some (first_of_segment [2, 3])"
    by (simp add: example_externals_def)
  have segs: "py_int ?E (Num (Fin 2)) = Inr 2" by simp
  have agg: "first_of_segment [2, 3] ?raw (length (index ?raw)) 2 ''cbc'' = Inr ?seg"
    by (simp add: first_of_segment_def)
  have some: "index ?seg \<noteq> []" by simp
  have snaps: "snapshots hourly_net = [0, hour, 2 * hour, 3 * hour, 4 * hour]"
    by (simp add: snapshots_def hourly_net_def)
  have first: "snapshots hourly_net \<noteq> []" by (simp add: snaps)
  have p: "pnl_get hourly_net (generators_t hourly_net) ''p_max_pu'' =
      \<lparr>index = [0, hour, 2 * hour, 3 * hour, 4 * hour],
       columns = [(''G2'', [Fin 0, Fin 0.2, Fin 0.8, Fin 1, Fin 0.4])]\<rparr>"
    by (simp add: pnl_get_def hourly_net_def)
  have l: "pnl_get hourly_net (loads_t hourly_net) ''p_set'' =
      \<lparr>index = [0, hour, 2 * hour, 3 * hour, 4 * hour],
       columns = [(''D1'', [Fin 10, Fin 20, Fin 30, Fin 40, Fin 60])]\<rparr>"
    by (simp add: pnl_get_def hourly_net_def)
  have i: "pnl_get hourly_net (storage_units_t hourly_net) ''inflow'' =
      \<lparr>index = [0, hour, 2 * hour, 3 * hour, 4 * hour], columns = []\<rparr>"
    by (simp add: pnl_get_def snapshots_def hourly_net_def plant_net_def Network_def)
  have names: "column_names ?seg = [''G2'', ''D1'']"
    unfolding p l i
    by (simp add: column_names_def concat_columns_def normalized_def reindex_def Let_def)
  have cols: "set (column_names (pnl_get hourly_net (generators_t hourly_net) ''p_max_pu'')) \<union>
              set (column_names (pnl_get hourly_net (loads_t hourly_net) ''p_set'')) \<union>
              set (column_names (pnl_get hourly_net (storage_units_t hourly_net) ''inflow''))
              \<subseteq> set (column_names ?seg)"
    unfolding names unfolding p l i by (simp add: column_names_def)
  from apply_time_segmentation_snapshots[where E = "?E" and raw = "?raw" and n = hourly_net
      and segmented = "?seg", OF lib segs refl agg some first cols]
  obtain n' where n': "apply_time_segmentation ?E hourly_net (Num (Fin 2)) ''cbc'' = Inr n'"
    "snapshots n' =
       map (\<lambda>i. hd (snapshots hourly_net) + int (sum_list (take i (index ?seg))) * hour)
         [0..<length (index ?seg)]"
    "columns (snapshot_weightings n') =
       map (\<lambda>c. (c, map (\<lambda>d. Fin (real d)) (index ?seg)))
         [''objective'', ''stores'', ''generators'']"
    "list_all (\<lambda>(c, w). sum_skipna w = Fin (real (sum_list (index ?seg))))
       (columns (snapshot_weightings n'))"
    by blast
  have s1: "snapshots n' = [0, 2 * hour]"
    using n'(2) by (simp add: snaps upt_rec)
  have s2: "columns (snapshot_weightings n') =
       [(''objective'', [Fin 2, Fin 3]), (''stores'', [Fin 2, Fin 3]),
        (''generators'', [Fin 2, Fin 3])]"
    using n'(3) by simp
  have s3: "list_all (\<lambda>(c, w). sum_skipna w = Fin 5) (columns (snapshot_weightings n'))"
    using n'(4) by simp
  show ?thesis
    using n'(1) s1 s2 s3 by (intro exI[of _ n']) simp
qed

text \<open>
  C5 as stated fails: the durations need not add up to the number of original snapshots.
  On four two-hourly snapshots the aggregation is given a period of four, which it reads
  as four hours, two steps of the series; cut into two segments it returns the durations
  1 and 1.  The new weightings add up to 2, and the network had 4 snapshots.
\<close>

theorem segment_durations_do_not_cover_snapshots:
  "length (snapshots two_hourly_net) = 4 \<and>
   (case apply_time_segmentation (example_externals [1, 1]) two_hourly_net (Num (Fin 2)) ''cbc'' of
      Inl e \<Rightarrow> False
    | Inr n' \<Rightarrow>
        snapshots n' = [0, hour] \<and>
        columns (snapshot_weightings n') =
          [(''objective'', [Fin 1, Fin 1]), (''stores'', [Fin 1, Fin 1]),
           (''generators'', [Fin 1, Fin 1])] \<and>
        list_all (\<lambda>(c, w). sum_skipna w = Fin 2) (columns (snapshot_weightings n')))"
  by code_simp

section \<open>The orchestrator\<close>

text \<open>
  C3 (as amended).  The two temporal steps are decided independently.  When an hours
  token or a configured resolution is present and true for Python, the run calls
  \<open>average_every_nhours\<close> on the network; if that call raises, the run ends with its
  error.  Then, when a segment token or a configured segment count is present and true
  for Python, the run calls \<open>apply_time_segmentation\<close> on the network that averaging
  returned, or on the network itself when no averaging was asked for.  So both are
  applied, averaging first and segmentation to its result, when both are configured, and
  at most one is applied when at most one is.
\<close>

theorem temporal_steps_independent:
  "(\<forall>h. nhours cfg opts = Some h \<and> truthy h \<longrightarrow>
      (\<forall>e. average_every_nhours E n h = Inl e \<longrightarrow>
         temporal_steps E cfg opts n = ([Average_every_nhours h], Inl e)) \<and>
      (\<forall>n1. average_every_nhours E n h = Inr n1 \<longrightarrow>
         (\<forall>k. time_seg cfg opts = Some k \<and> truthy k \<longrightarrow>
            temporal_steps E cfg opts n =
              ([Average_every_nhours h, Apply_time_segmentation k (solver_name cfg)],
               apply_time_segmentation E n1 k (solver_name cfg))) \<and>
         (\<not> wanted (time_seg cfg opts) \<longrightarrow>
            temporal_steps E cfg opts n = ([Average_every_nhours h], Inr n1)))) \<and>
   (\<not> wanted (nhours cfg opts) \<longrightarrow>
      (\<forall>k. time_seg cfg opts = Some k \<and> truthy k \<longrightarrow>
         temporal_steps E cfg opts n =
           ([Apply_time_segmentation k (solver_name cfg)],
            apply_time_segmentation E n k (solver_name cfg))) \<and>
      (\<not> wanted (time_seg cfg opts) \<longrightarrow> temporal_steps E cfg opts n = ([], Inr n)))"
proof -
  have averaged: "temporal_steps E cfg opts n = ([Average_every_nhours h], Inl e)"
    if "nhours cfg opts = Some h" "truthy h" "average_every_nhours E n h = Inl e" for h e
    using that by (simp add: temporal_steps_def)
  have both: "temporal_steps E cfg opts n =
      ([Average_every_nhours h, Apply_time_segmentation k (solver_name cfg)],
       apply_time_segmentation E n1 k (solver_name cfg))"
    if "nhours cfg opts = Some h" "truthy h" "average_every_nhours E n h = Inr n1"
      "time_seg cfg opts = Some k" "truthy k" for h n1 k
    using that by (simp add: temporal_steps_def)
  have first: "temporal_steps E cfg opts n = ([Average_every_nhours h], Inr n1)"
    if "nhours cfg opts = Some h" "truthy h" "average_every_nhours E n h = Inr n1"
      "\<not> wanted (time_seg cfg opts)" for h n1
    using that by (auto simp: temporal_steps_def wanted_def split: option.splits)
  have second: "temporal_steps E cfg opts n =
      ([Apply_time_segmentation k (solver_name cfg)],
       apply_time_segmentation E n k (solver_name cfg))"
    if "\<not> wanted (nhours cfg opts)" "time_seg cfg opts = Some k" "truthy k" for k
    using that by (auto simp: temporal_steps_def wanted_def split: option.splits)
  have neither: "temporal_steps E cfg opts n = ([], Inr n)"
    if "\<not> wanted (nhours cfg opts)" "\<not> wanted (time_seg cfg opts)"
    using that by (auto simp: temporal_steps_def wanted_def split: option.splits)
  show ?thesis
    using averaged both first second neither by blast
qed

theorem temporal_steps_independent_witness:
  "(case average_every_nhours (example_externals [1, 1]) eight_hour_net (Str ''2h'') of
      Inl e \<Rightarrow> False
    | Inr n1 \<Rightarrow>
        snapshots n1 = [0, 2 * hour, 4 * hour, 6 * hour] \<and>
        temporal_steps (example_externals [1, 1]) both_configured [[]] eight_hour_net =
          ([Average_every_nhours (Str ''2h''), Apply_time_segmentation (Num (Fin 2)) ''cbc''],
           apply_time_segmentation (example_externals [1, 1]) n1 (Num (Fin 2)) ''cbc''))"
proof -
  let ?E = "example_externals [1, 1]"
  have avg: "(case average_every_nhours ?E eight_hour_net (Str ''2h'') of
      Inl e \<Rightarrow> False
    | Inr n1 \<Rightarrow> snapshots n1 = [0, 2 * hour, 4 * hour, 6 * hour])"
    by code_simp
  then obtain n1 where n1: "average_every_nhours ?E eight_hour_net (Str ''2h'') = Inr n1"
    and snaps: "snapshots n1 = [0, 2 * hour, 4 * hour, 6 * hour]"
    by (cases "average_every_nhours ?E eight_hour_net (Str ''2h'')") auto
  have h: "nhours both_configured [[]] = Some (Str ''2h'') \<and> truthy (Str ''2h'')"
    by (simp add: nhours_def get_opt_def digits_then_def wildcard_or_config_def
        both_configured_def)
  have k: "time_seg both_configured [[]] = Some (Num (Fin 2)) \<and> truthy (Num (Fin 2))"
    by (simp add: time_seg_def get_opt_def digits_then_def wildcard_or_config_def
        both_configured_def)
  have s: "solver_name both_configured = ''cbc''"
    by (simp add: both_configured_def)
  have "temporal_steps ?E both_configured [[]] eight_hour_net =
      ([Average_every_nhours (Str ''2h''), Apply_time_segmentation (Num (Fin 2)) ''cbc''],
       apply_time_segmentation ?E n1 (Num (Fin 2)) ''cbc'')"
    using temporal_steps_independent[of both_configured "[[]]" ?E eight_hour_net] h k n1 s
    by metis
  with n1 snaps show ?thesis by simp
qed

text \<open>
  C3 as stated fails: with a configured resolution of two hours and a configured segment
  count of two, the run averages the eight hourly snapshots into four and then segments
  the four averaged ones.  Both calls are made and both return: the aggregation, given a
  period of four on a two-hourly series, returns the durations 1 and 1.
\<close>

theorem averaging_and_segmentation_both_applied:
  "fst (temporal_steps (example_externals [1, 1]) both_configured [[]] eight_hour_net) =
     [Average_every_nhours (Str ''2h''), Apply_time_segmentation (Num (Fin 2)) ''cbc''] \<and>
   (case average_every_nhours (example_externals [1, 1]) eight_hour_net (Str ''2h'') of
      Inl e \<Rightarrow> False
    | Inr n1 \<Rightarrow> snapshots n1 = [0, 2 * hour, 4 * hour, 6 * hour]) \<and>
   (case snd (temporal_steps (example_externals [1, 1]) both_configured [[]] eight_hour_net) of
      Inl e \<Rightarrow> False
    | Inr n' \<Rightarrow> snapshots n' = [0, hour] \<and>
        columns (snapshot_weightings n') =
          [(''objective'', [Fin 1, Fin 1]), (''stores'', [Fin 1, Fin 1]),
           (''generators'', [Fin 1, Fin 1])])"
  by code_simp

lemma split_on_nonempty: "split_on sep s \<noteq> []"
  by (induction s) (auto split: list.splits)

lemma split_on_prefix:
  "sep \<notin> set w \<Longrightarrow> split_on sep (w @ sep # rest) = w # split_on sep rest"
  by (induction w) (auto split: list.splits)

lemma split_on_head:
  "c \<noteq> sep \<Longrightarrow> \<exists>w ws. split_on sep (c # cs) = (c # w) # ws"
  using split_on_nonempty[of sep cs] by (cases "split_on sep cs") auto

lemma token_scaling_unknown_code:
  assumes "CHR ''+'' \<notin> set carrier"
    and "list_ex (startswith carrier) (suptechs n)"
    and "code \<notin> {CHR ''p'', CHR ''c'', CHR ''m''}"
  shows "token_scaling parse n (carrier @ CHR ''+'' # code # tail) =
         Inl (if code = CHR ''+'' then IndexError else KeyError [code])"
proof -
  let ?rest = "split_on CHR ''+'' (code # tail)"
  have oo: "split_on CHR ''+'' (carrier @ CHR ''+'' # code # tail) = carrier # ?rest"
    using assms(1) by (rule split_on_prefix)
  show ?thesis
  proof (cases "code = CHR ''+''")
    case True
    then show ?thesis
      using assms(2) unfolding token_scaling_def oo Let_def by simp
  next
    case False
    then obtain w ws where w: "?rest = (code # w) # ws"
      using split_on_head by blast
    have "map_of attr_lookup [code] = None"
      using assms(3) by (simp add: attr_lookup_def)
    then show ?thesis
      using assms(2) False unfolding token_scaling_def oo Let_def w by simp
  qed
qed

lemma carriers_scale_option: "scale_option parse search n opt = Inr n1 \<Longrightarrow> carriers n1 = carriers n"
  by (auto simp: scale_option_def scale_lines_def scale_components_def
      split: sum.splits option.splits if_splits)

lemma carriers_scale_options: "scale_options parse search n opts = Inr n1 \<Longrightarrow> carriers n1 = carriers n"
proof (induction opts arbitrary: n)
  case Nil
  then show ?case by simp
next
  case (Cons a opts)
  then show ?case
    by (auto split: sum.splits dest: carriers_scale_option)
qed

lemma scale_options_append:
  "scale_options parse search n (pre @ post) =
     (case scale_options parse search n pre of Inl e \<Rightarrow> Inl e | Inr n1 \<Rightarrow> scale_options parse search n1 post)"
  by (induction pre arbitrary: n) (auto split: sum.splits)

text \<open>
  C7 (as amended).  A token \<open>carrier+code...\<close> whose carrier part starts with the
  prefix of a network carrier and whose attribute code is none of p, c and m raises a
  KeyError that carries the code character alone, not the token (an IndexError when
  the code is a second plus sign, since the part after the first is then empty).  The
  error is raised at the lookup, before the factor is read and before anything is scaled;
  the loop over the tokens stops there, unless an earlier token raised already.
\<close>

theorem unknown_attribute_code_raises:
  assumes "CHR ''+'' \<notin> set carrier"
    and "list_ex (startswith carrier) (suptechs n)"
    and "code \<notin> {CHR ''p'', CHR ''c'', CHR ''m''}"
  shows "scale_option parse search n (carrier @ CHR ''+'' # code # tail) =
           Inl (if code = CHR ''+'' then IndexError else KeyError [code]) \<and>
         scale_options parse search n (pre @ (carrier @ CHR ''+'' # code # tail) # post) =
           (case scale_options parse search n pre of
              Inl e \<Rightarrow> Inl e
            | Inr n1 \<Rightarrow> Inl (if code = CHR ''+'' then IndexError else KeyError [code]))"
proof -
  have one: "scale_option parse search m (carrier @ CHR ''+'' # code # tail) =
      Inl (if code = CHR ''+'' then IndexError else KeyError [code])"
    if "carriers m = carriers n" for m
  proof -
    have "list_ex (startswith carrier) (suptechs m)"
      using assms(2) that by (simp add: suptechs_def)
    from token_scaling_unknown_code[OF assms(1) this assms(3)]
    show ?thesis by (simp add: scale_option_def)
  qed
  have "scale_options parse search n (pre @ (carrier @ CHR ''+'' # code # tail) # post) =
      (case scale_options parse search n pre of
         Inl e \<Rightarrow> Inl e
       | Inr n1 \<Rightarrow> Inl (if code = CHR ''+'' then IndexError else KeyError [code]))"
  proof (cases "scale_options parse search n pre")
    case (Inl e)
    then show ?thesis by (simp add: scale_options_append)
  next
    case (Inr n1)
    then have "carriers n1 = carriers n" by (rule carriers_scale_options)
    then show ?thesis using Inr by (simp add: scale_options_append one)
  qed
  with one[of n] show ?thesis by simp
qed

theorem unknown_attribute_code_raises_witness:
  "scale_option half plain_search plant_net ''solar+x2'' = Inl (KeyError ''x'') \<and>
   (case scale_options half plain_search plant_net [''solar+m0.5''] of
      Inl e \<Rightarrow> False
    | Inr n1 \<Rightarrow> map (\<lambda>(nm, g). (nm, gen_marginal_cost g)) (generators n1) =
                  [(''G1'', Fin 50), (''G2'', Fin 0.5)]) \<and>
   scale_options half plain_search plant_net [''solar+m0.5'', ''solar+x2'', ''solar+m2''] = Inl (KeyError ''x'')"
proof -
  have a: "CHR ''+'' \<notin> set ''solar''" by simp
  have b: "list_ex (startswith ''solar'') (suptechs plant_net)"
    by (simp add: suptechs_def plant_net_def Network_def startswith_def)
  have c: "CHR ''x'' \<notin> {CHR ''p'', CHR ''c'', CHR ''m''}" by simp
  have pre: "(case scale_options half plain_search plant_net [''solar+m0.5''] of
      Inl e \<Rightarrow> False
    | Inr n1 \<Rightarrow> map (\<lambda>(nm, g). (nm, gen_marginal_cost g)) (generators n1) =
                  [(''G1'', Fin 50), (''G2'', Fin 0.5)])"
    by code_simp
  then obtain n1 where n1: "scale_options half plain_search plant_net [''solar+m0.5''] = Inr n1"
    by (cases "scale_options half plain_search plant_net [''solar+m0.5'']") auto
  show ?thesis
    using unknown_attribute_code_raises[OF a b c, of half plain_search "''2''" "[''solar+m0.5'']" "[''solar+m2'']"]
      pre n1
    by simp
qed

text \<open>
  C7 as stated fails: the error does not identify the token.  Two different offending
  tokens raise the same error, which carries the attribute code only.
\<close>

theorem unknown_attribute_code_error_same_for_two_tokens:
  "scale_option half plain_search plant_net ''solar+x2'' = Inl (KeyError ''x'') \<and>
   scale_option half plain_search plant_net ''solar+x3'' = Inl (KeyError ''x'') \<and>
   ''solar+x2'' \<noteq> ''solar+x3''"
  by code_simp

section \<open>Uniform averaging\<close>

lemma sum_skipna_finite:
  "list_all isfinite xs \<Longrightarrow> sum_skipna xs = Fin (sum_list (map fval xs))"
proof (induction xs)
  case Nil
  then show ?case by (simp add: sum_skipna_def fsum_def)
next
  case (Cons x xs)
  then obtain r where "x = Fin r" by (cases x) auto
  with Cons show ?case by (simp add: sum_skipna_def fsum_def notna_def)
qed

lemma fold_min_le: "fold min xs (a::int) \<le> a \<and> (\<forall>x \<in> set xs. fold min xs a \<le> x)"
proof (induction xs arbitrary: a)
  case Nil
  then show ?case by simp
next
  case (Cons y ys)
  have 1: "fold min ys (min y a) \<le> min y a" using Cons by blast
  have 2: "\<forall>x \<in> set ys. fold min ys (min y a) \<le> x" using Cons by blast
  show ?case using 1 2 by auto
qed

lemma fold_max_ge: "a \<le> fold max xs (a::int) \<and> (\<forall>x \<in> set xs. x \<le> fold max xs a)"
proof (induction xs arbitrary: a)
  case Nil
  then show ?case by simp
next
  case (Cons y ys)
  have 1: "max y a \<le> fold max ys (max y a)" using Cons by blast
  have 2: "\<forall>x \<in> set ys. x \<le> fold max ys (max y a)" using Cons by blast
  show ?case using 1 2 by auto
qed

lemma list_min_le: "t \<in> set idx \<Longrightarrow> list_min idx \<le> t"
  using fold_min_le[of "tl idx" "hd idx"] by (cases idx) (auto simp: list_min_def)

lemma list_max_ge: "t \<in> set idx \<Longrightarrow> t \<le> list_max idx"
  using fold_max_ge[of "hd idx" "tl idx"] by (cases idx) (auto simp: list_max_def)

text \<open>A timestamp lies in the bin of index \<open>k\<close> exactly when \<open>k\<close> is its quotient.\<close>

lemma in_bin_iff:
  fixes freq start t :: int
  assumes "0 < freq" and "start \<le> t"
  shows "(start + int k * freq \<le> t \<and> t < start + int k * freq + freq) =
         (k = nat ((t - start) div freq))"
proof -
  define d where "d = t - start"
  have d0: "0 \<le> d" using assms(2) by (simp add: d_def)
  have q0: "0 \<le> d div freq" using d0 assms(1) by (simp add: pos_imp_zdiv_nonneg_iff)
  have "(int k * freq \<le> d \<and> d < int k * freq + freq) = (d div freq = int k)"
  proof
    assume a: "int k * freq \<le> d \<and> d < int k * freq + freq"
    show "d div freq = int k"
    proof (rule int_div_pos_eq)
      show "d = freq * int k + (d - int k * freq)" by (simp add: algebra_simps)
      show "0 \<le> d - int k * freq" using a by simp
      show "d - int k * freq < freq" using a by simp
    qed
  next
    assume e: "d div freq = int k"
    have m: "d = freq * int k + d mod freq" using e by (metis mult_div_mod_eq)
    have "0 \<le> d mod freq" "d mod freq < freq" using assms(1) by simp_all
    then show "int k * freq \<le> d \<and> d < int k * freq + freq"
      using m by (simp add: algebra_simps)
  qed
  moreover have "(d div freq = int k) = (k = nat (d div freq))" using q0 by auto
  ultimately show ?thesis by (simp add: d_def algebra_simps)
qed

lemma one_bin:
  fixes x :: real
  assumes "0 < freq" and "start \<le> t" and "nat ((t - start) div freq) < nb"
  shows "sum_list (map (\<lambda>b. if b \<le> t \<and> t < b + freq then x else 0)
           (map (\<lambda>k. start + int k * freq) [0..<nb])) = x"
proof -
  let ?k0 = "nat ((t - start) div freq)"
  have e1: "map (\<lambda>b. if b \<le> t \<and> t < b + freq then x else 0)
          (map (\<lambda>k. start + int k * freq) [0..<nb]) =
        map (\<lambda>k. if k = ?k0 then x else 0) [0..<nb]"
    using in_bin_iff[OF assms(1,2)] by simp
  have "sum_list (map (\<lambda>k. if k = ?k0 then x else 0) [0..<nb]) =
      (\<Sum>k \<in> set [0..<nb]. if k = ?k0 then x else 0)"
    by (rule interv_sum_list_conv_sum_set_nat)
  also have "\<dots> = x"
    using assms(3) by (simp add: sum.delta)
  finally show ?thesis unfolding e1 .
qed

lemma bins_partition:
  fixes labels :: "int list"
  assumes "\<And>t v x. (t, v) \<in> set rows \<Longrightarrow>
             sum_list (map (\<lambda>b. if b \<le> t \<and> t < b + freq then x else (0::real)) labels) = x"
  shows "sum_list (map (\<lambda>b. sum_list (map (\<lambda>r. fval (snd r))
                                   (filter (\<lambda>(t, v). b \<le> t \<and> t < b + freq) rows))) labels) =
         sum_list (map (\<lambda>r. fval (snd r)) rows)"
  using assms
proof (induction rows)
  case Nil
  then show ?case by simp
next
  case (Cons r rows)
  obtain t v where r: "r = (t, v)" by (cases r)
  have step: "sum_list (map (\<lambda>r. fval (snd r)) (filter (\<lambda>(t, v). b \<le> t \<and> t < b + freq) (r # rows))) =
      (if b \<le> t \<and> t < b + freq then fval v else 0) +
      sum_list (map (\<lambda>r. fval (snd r)) (filter (\<lambda>(t, v). b \<le> t \<and> t < b + freq) rows))" for b
    by (simp add: r)
  have here: "sum_list (map (\<lambda>b. if b \<le> t \<and> t < b + freq then fval v else 0) labels) = fval v"
    by (rule Cons.prems[of t v]) (simp add: r)
  have rest: "sum_list (map (\<lambda>b. sum_list (map (\<lambda>r. fval (snd r))
                  (filter (\<lambda>(t, v). b \<le> t \<and> t < b + freq) rows))) labels) =
      sum_list (map (\<lambda>r. fval (snd r)) rows)"
  proof (rule Cons.IH)
    fix t' v' and x :: real
    assume "(t', v') \<in> set rows"
    then have "(t', v') \<in> set (r # rows)" by simp
    then show "sum_list (map (\<lambda>b. if b \<le> t' \<and> t' < b + freq then x else 0) labels) = x"
      by (rule Cons.prems)
  qed
  show ?case
    unfolding step sum_list_addf here rest by (simp add: r)
qed

lemma bin_of_timestamp:
  fixes x :: real
  assumes "0 < freq" and "t \<in> set idx"
  shows "sum_list (map (\<lambda>b. if b \<le> t \<and> t < b + freq then x else 0) (bin_labels freq idx)) = x"
proof -
  define first where "first = list_min idx"
  define last where "last = list_max idx"
  define start where "start = first - (first - (first - first mod day)) mod freq"
  have ne: "idx \<noteq> []" using assms(2) by auto
  have lo: "first \<le> t" and hi: "t \<le> last"
    using assms(2) by (simp_all add: list_min_le list_max_ge first_def last_def)
  have "0 \<le> (first - (first - first mod day)) mod freq"
    using assms(1) by (rule pos_mod_sign)
  then have s: "start \<le> t" using lo unfolding start_def by linarith
  have "t - start \<le> last - start" using hi by simp
  then have "(t - start) div freq \<le> (last - start) div freq"
    using assms(1) by (rule zdiv_mono1)
  then have k: "nat ((t - start) div freq) < nat ((last - start) div freq) + 1"
    by linarith
  have "bin_labels freq idx =
      map (\<lambda>k. start + int k * freq) [0..<nat ((last - start) div freq) + 1]"
    using ne by (simp only: bin_labels_def Let_def if_False start_def first_def last_def)
  then show ?thesis
    using one_bin[OF assms(1) s k, of x] by (simp only:)
qed

lemma bin_values_finite:
  "list_all isfinite vs \<Longrightarrow> list_all isfinite (bin_values freq idx vs b)"
  by (auto simp: bin_values_def list_all_iff dest: set_zip_rightD)

lemma map_fval_snd_zip: "length vs = length idx \<Longrightarrow> map (\<lambda>r. fval (snd r)) (zip idx vs) = map fval vs"
proof (induction idx arbitrary: vs)
  case Nil
  then show ?case by simp
next
  case (Cons i idx)
  then show ?case by (cases vs) auto
qed

lemma resample_sum_conserved:
  assumes "0 < freq" and "length vs = length idx" and "list_all isfinite vs"
  shows "sum_skipna (map (\<lambda>b. sum_skipna (bin_values freq idx vs b)) (bin_labels freq idx)) =
         sum_skipna vs"
proof -
  define r where "r = (\<lambda>b. sum_list (map (\<lambda>r. fval (snd r))
                     (filter (\<lambda>(t, v). b \<le> t \<and> t < b + freq) (zip idx vs))))"
  have bin: "sum_skipna (bin_values freq idx vs b) = Fin (r b)" for b
    using sum_skipna_finite[OF bin_values_finite[OF assms(3), of freq idx b]]
    by (simp add: bin_values_def o_def r_def)
  have part: "sum_list (map r (bin_labels freq idx)) =
      sum_list (map (\<lambda>r. fval (snd r)) (zip idx vs))"
    unfolding r_def
  proof (rule bins_partition)
    fix t v and x :: real
    assume "(t, v) \<in> set (zip idx vs)"
    then have "t \<in> set idx" by (rule set_zip_leftD)
    then show "sum_list (map (\<lambda>b. if b \<le> t \<and> t < b + freq then x else 0)
        (bin_labels freq idx)) = x"
      by (rule bin_of_timestamp[OF assms(1)])
  qed
  have total: "sum_list (map r (bin_labels freq idx)) = sum_list (map fval vs)"
    unfolding part map_fval_snd_zip[OF assms(2)] ..
  have "map (\<lambda>b. sum_skipna (bin_values freq idx vs b)) (bin_labels freq idx) =
      map (\<lambda>b. Fin (r b)) (bin_labels freq idx)"
    by (simp add: bin)
  then have "sum_skipna (map (\<lambda>b. sum_skipna (bin_values freq idx vs b)) (bin_labels freq idx)) =
      Fin (sum_list (map r (bin_labels freq idx)))"
    by (simp only: sum_skipna_Fin)
  also have "\<dots> = sum_skipna vs"
    unfolding total sum_skipna_finite[OF assms(3)] ..
  finally show ?thesis .
qed

lemma mean_skipna_finite:
  assumes "rs \<noteq> []"
  shows "mean_skipna (map Fin rs) = Fin (sum_list rs / real (length rs))"
proof -
  have f: "filter notna (map Fin rs) = map Fin rs"
    by (induction rs) (auto simp: notna_def)
  have "sum_skipna (map Fin rs) = Fin (sum_list (map (\<lambda>r. r) rs))"
    by (rule sum_skipna_Fin)
  then have s: "fsum (map Fin rs) = Fin (sum_list rs)"
    by (simp add: sum_skipna_def f)
  show ?thesis using assms by (simp add: mean_skipna_def f s Let_def)
qed

lemma resample_pnl_consistent:
  "(b \<longrightarrow> list_all (\<lambda>(k, df). empty_frame df) tables) \<Longrightarrow>
   resample_pnl freq b tables = resample_pnl freq False tables"
  by (auto simp: resample_pnl_def list_all_iff filter_empty_conv)

lemma resample_sum_columns:
  assumes "0 < freq" and "wf_frame df"
    and "list_all (\<lambda>(c, vs). list_all isfinite vs) (columns df)"
  shows "list_all2 (\<lambda>(c', ws) (c, vs). c' = c \<and> sum_skipna ws = sum_skipna vs)
           (columns (resample sum_skipna freq df)) (columns df)"
proof -
  have "sum_skipna (map (\<lambda>b. sum_skipna (bin_values freq (index df) vs b))
            (bin_labels freq (index df))) = sum_skipna vs"
    if "(c, vs) \<in> set (columns df)" for c vs
  proof (rule resample_sum_conserved[OF assms(1)])
    show "length vs = length (index df)"
      using assms(2) that by (auto simp: wf_frame_def list_all_iff)
    show "list_all isfinite vs"
      using assms(3) that by (auto simp: list_all_iff)
  qed
  then have "\<forall>x \<in> set (columns df).
      (case (case x of (c, vs) \<Rightarrow> (c, map (\<lambda>b. sum_skipna (bin_values freq (index df) vs b))
                                          (bin_labels freq (index df)))) of
         (c', ws) \<Rightarrow> \<lambda>(c, vs). c' = c \<and> sum_skipna ws = sum_skipna vs) x"
    by auto
  then show ?thesis
    by (simp add: resample_def list_all2_map1 list_all2_same)
qed

text \<open>
  C2.  For a frequency string pandas reads as a positive fixed length of time, on a
  network whose snapshot weightings are well formed and finite and in which a component
  without entities has no time series, \<open>average_every_nhours\<close> returns a network that
  differs from the input in its snapshot weightings and time-varying tables only (the
  static tables are the same).  The new weightings are the sums within each bucket, and
  each column of them adds up to what the column added up to before.  Every time-varying
  table that is not empty is replaced by its resampling with the mean of each bucket
  (the arithmetic mean of the values that are not missing: their sum over their number);
  the empty ones are left out of the copy, which holds them without columns.
\<close>

theorem average_every_nhours_conserves:
  assumes "to_offset E s = Some freq" and "0 < freq"
    and "wf_frame (snapshot_weightings n)"
    and "list_all (\<lambda>(c, vs). list_all isfinite vs) (columns (snapshot_weightings n))"
    and "consistent_pnl n"
  shows "\<exists>m. average_every_nhours E n (Str s) = Inr m \<and>
           m = n\<lparr>snapshot_weightings := snapshot_weightings m,
                 buses_t := buses_t m, lines_t := lines_t m, links_t := links_t m,
                 generators_t := generators_t m, storage_units_t := storage_units_t m,
                 stores_t := stores_t m, loads_t := loads_t m\<rparr> \<and>
           snapshot_weightings m = resample sum_skipna freq (snapshot_weightings n) \<and>
           list_all2 (\<lambda>(c', ws) (c, vs). c' = c \<and> sum_skipna ws = sum_skipna vs)
             (columns (snapshot_weightings m)) (columns (snapshot_weightings n)) \<and>
           buses_t m = resample_pnl freq False (buses_t n) \<and>
           lines_t m = resample_pnl freq False (lines_t n) \<and>
           links_t m = resample_pnl freq False (links_t n) \<and>
           generators_t m = resample_pnl freq False (generators_t n) \<and>
           storage_units_t m = resample_pnl freq False (storage_units_t n) \<and>
           stores_t m = resample_pnl freq False (stores_t n) \<and>
           loads_t m = resample_pnl freq False (loads_t n) \<and>
           (\<forall>rs. rs \<noteq> [] \<longrightarrow> mean_skipna (map Fin rs) = Fin (sum_list rs / real (length rs)))"
proof -
  let ?m = "n\<lparr>snapshot_weightings := resample sum_skipna freq (snapshot_weightings n),
               buses_t := resample_pnl freq False (buses_t n),
               lines_t := resample_pnl freq False (lines_t n),
               links_t := resample_pnl freq False (links_t n),
               generators_t := resample_pnl freq False (generators_t n),
               storage_units_t := resample_pnl freq False (storage_units_t n),
               stores_t := resample_pnl freq False (stores_t n),
               loads_t := resample_pnl freq False (loads_t n)\<rparr>"
  have t: "resample_pnl freq (buses n = []) (buses_t n) = resample_pnl freq False (buses_t n)"
    "resample_pnl freq (lines n = []) (lines_t n) = resample_pnl freq False (lines_t n)"
    "resample_pnl freq (links n = []) (links_t n) = resample_pnl freq False (links_t n)"
    "resample_pnl freq (generators n = []) (generators_t n) =
       resample_pnl freq False (generators_t n)"
    "resample_pnl freq (storage_units n = []) (storage_units_t n) =
       resample_pnl freq False (storage_units_t n)"
    "resample_pnl freq (stores n = []) (stores_t n) = resample_pnl freq False (stores_t n)"
    "resample_pnl freq (loads n = []) (loads_t n) = resample_pnl freq False (loads_t n)"
    using assms(5) by (auto simp: consistent_pnl_def intro!: resample_pnl_consistent)
  have run: "average_every_nhours E n (Str s) = Inr ?m"
    using assms(1,2) by (simp add: average_every_nhours_def t)
  have sums: "list_all2 (\<lambda>(c', ws) (c, vs). c' = c \<and> sum_skipna ws = sum_skipna vs)
      (columns (resample sum_skipna freq (snapshot_weightings n)))
      (columns (snapshot_weightings n))"
    using assms(2,3,4) by (rule resample_sum_columns)
  show ?thesis
    using run sums by (intro exI[of _ ?m]) (simp add: mean_skipna_finite)
qed

theorem average_every_nhours_conserves_witness:
  "\<exists>m. average_every_nhours (example_externals []) hourly_net (Str ''2h'') = Inr m \<and>
     generators m = generators hourly_net \<and>
     snapshot_weightings m =
       \<lparr>index = [0, 2 * hour, 4 * hour],
        columns = [(''objective'', [Fin 2, Fin 2, Fin 1]), (''stores'', [Fin 2, Fin 2, Fin 1]),
                   (''generators'', [Fin 2, Fin 2, Fin 1])]\<rparr> \<and>
     list_all (\<lambda>(c, ws). sum_skipna ws = Fin 5) (columns (snapshot_weightings m)) \<and>
     list_all (\<lambda>(c, vs). sum_skipna vs = Fin 5) (columns (snapshot_weightings hourly_net)) \<and>
     generators_t m =
       [(''p_max_pu'', \<lparr>index = [0, 2 * hour, 4 * hour],
                        columns = [(''G2'', [Fin 0.1, Fin 0.9, Fin 0.4])]\<rparr>)] \<and>
     loads_t m =
       [(''p_set'', \<lparr>index = [0, 2 * hour, 4 * hour],
                     columns = [(''D1'', [Fin 15, Fin 35, Fin 60])]\<rparr>)]"
proof -
  have a1: "to_offset (example_externals []) ''2h'' = Some (2 * hour)"
    by (simp add: example_externals_def)
  have a2: "0 < 2 * hour" by (simp add: hour_def)
  have a3: "wf_frame (snapshot_weightings hourly_net)"
    by (simp add: wf_frame_def hourly_net_def)
  have a4: "list_all (\<lambda>(c, vs). list_all isfinite vs) (columns (snapshot_weightings hourly_net))"
    by (simp add: hourly_net_def)
  have a5: "consistent_pnl hourly_net"
    by (simp add: consistent_pnl_def hourly_net_def plant_net_def Network_def)
  from average_every_nhours_conserves[OF a1 a2 a3 a4 a5]
  obtain m where run: "average_every_nhours (example_externals []) hourly_net (Str ''2h'') = Inr m"
    and static: "m = hourly_net\<lparr>snapshot_weightings := snapshot_weightings m,
                 buses_t := buses_t m, lines_t := lines_t m, links_t := links_t m,
                 generators_t := generators_t m, storage_units_t := storage_units_t m,
                 stores_t := stores_t m, loads_t := loads_t m\<rparr>"
    and w: "snapshot_weightings m = resample sum_skipna (2 * hour) (snapshot_weightings hourly_net)"
    and g: "generators_t m = resample_pnl (2 * hour) False (generators_t hourly_net)"
    and l: "loads_t m = resample_pnl (2 * hour) False (loads_t hourly_net)"
    by blast
  have gens: "generators m = generators hourly_net"
    by (subst static) simp
  have w': "resample sum_skipna (2 * hour) (snapshot_weightings hourly_net) =
       \<lparr>index = [0, 2 * hour, 4 * hour],
        columns = [(''objective'', [Fin 2, Fin 2, Fin 1]), (''stores'', [Fin 2, Fin 2, Fin 1]),
                   (''generators'', [Fin 2, Fin 2, Fin 1])]\<rparr>"
    by code_simp
  have g': "resample_pnl (2 * hour) False (generators_t hourly_net) =
       [(''p_max_pu'', \<lparr>index = [0, 2 * hour, 4 * hour],
                        columns = [(''G2'', [Fin 0.1, Fin 0.9, Fin 0.4])]\<rparr>)]"
    by code_simp
  have l': "resample_pnl (2 * hour) False (loads_t hourly_net) =
       [(''p_set'', \<lparr>index = [0, 2 * hour, 4 * hour],
                     columns = [(''D1'', [Fin 15, Fin 35, Fin 60])]\<rparr>)]"
    by code_simp
  have s5: "list_all (\<lambda>(c, vs). sum_skipna vs = Fin 5) (columns (snapshot_weightings hourly_net))"
    by code_simp
  have s5': "list_all (\<lambda>(c, ws). sum_skipna ws = Fin 5) (columns (snapshot_weightings m))"
    unfolding w w' by code_simp
  show ?thesis
    using run gens s5 s5' by (intro exI[of _ m]) (simp add: w w' g g' l l')
qed

end
